theory Spec2Isabelle
  imports Main "HOL-Library.Word" "HOL-Library.Sublist"
begin

unbundle bit_operations_syntax

section \<open>zfs.util: the probe helper of cmd/zfs_util/zfs_util.c\<close>

text \<open>
  A shallow embedding of \<^verbatim>\<open>cmd/zfs_util/zfs_util.c\<close>. C strings are \<open>string\<close>s that
  hold the bytes before the terminating NUL; fixed-size buffers are byte lists of their
  size; \<open>uint32_t\<close> and \<open>uint64_t\<close> are \<open>32 word\<close> and \<open>64 word\<close>. What the operating
  system and libzfs answer is passed in as an environment record, one field per call.
\<close>

subsection \<open>C strings\<close>

definition NUL :: char where
  "NUL = CHR 0x00"

text \<open>\<^verbatim>\<open>s[i]\<close> for \<open>i \<le> strlen s\<close>: the terminator sits at index \<open>length s\<close>.\<close>

definition cstr_at :: "string \<Rightarrow> nat \<Rightarrow> char" where
  "cstr_at s i = (if i < length s then s ! i else NUL)"

definition strlen :: "string \<Rightarrow> nat" where
  "strlen s = length s"

text \<open>
  \<^verbatim>\<open>strrchr(s, c)\<close> for \<open>c \<noteq> NUL\<close>: the suffix of \<open>s\<close> that starts at the last
  occurrence of \<open>c\<close>, or \<open>None\<close> for the null pointer.
\<close>

fun strrchr :: "string \<Rightarrow> char \<Rightarrow> string option" where
  "strrchr [] c = None"
| "strrchr (x # xs) c =
     (case strrchr xs c of
        Some s \<Rightarrow> Some s
      | None \<Rightarrow> if x = c then Some (x # xs) else None)"

text \<open>\<^verbatim>\<open>strcmp\<close>: the difference of the first two bytes that differ, read as unsigned.\<close>

fun strcmp :: "string \<Rightarrow> string \<Rightarrow> int" where
  "strcmp [] [] = 0"
| "strcmp [] (y # ys) = - int (of_char y)"
| "strcmp (x # xs) [] = int (of_char x)"
| "strcmp (x # xs) (y # ys) =
     (if x = y then strcmp xs ys else int (of_char x) - int (of_char y))"

text \<open>
  \<^verbatim>\<open>snprintf(buf, size, fmt, ...)\<close> into a buffer that is large enough for \<open>size\<close>
  bytes, where \<open>s\<close> is the expanded format: at most \<open>size - 1\<close> bytes are stored before
  the terminator.
\<close>

definition snprintf_trunc :: "nat \<Rightarrow> string \<Rightarrow> string" where
  "snprintf_trunc n s = take (n - 1) s"

text \<open>
  Modelled from the spec: the host's \<^verbatim>\<open>sys/param.h\<close> is not among the sources. The
  spec's receive buffers have the size of a path; \<^verbatim>\<open>MAXPATHLEN\<close> is 1024 on the host.
\<close>

definition MAXPATHLEN :: nat where
  "MAXPATHLEN = 1024"

subsection \<open>Exit codes and action characters\<close>

text \<open>
  Modelled from the spec: the host's \<^verbatim>\<open>sys/loadable_fs.h\<close> is not among the sources.
  The spec names the exit codes \<open>RECOGNIZED\<close>, \<open>UNRECOGNIZED\<close>, \<open>IO_SUCCESS\<close>,
  \<open>IO_FAIL\<close> and \<open>INVAL\<close> and the action switches \<^verbatim>\<open>-p\<close>, \<^verbatim>\<open>-m\<close> and \<^verbatim>\<open>-u\<close>; the
  numbers are the host's. \<^verbatim>\<open>FSUC_GETUUID\<close> and \<^verbatim>\<open>FSUC_SETUUID\<close> are as the source
  defines them.
\<close>

definition FSUR_RECOGNIZED :: int where "FSUR_RECOGNIZED = -1"
definition FSUR_UNRECOGNIZED :: int where "FSUR_UNRECOGNIZED = -2"
definition FSUR_IO_SUCCESS :: int where "FSUR_IO_SUCCESS = -3"
definition FSUR_IO_FAIL :: int where "FSUR_IO_FAIL = -4"
definition FSUR_INVAL :: int where "FSUR_INVAL = -6"

definition FSUC_PROBE :: char where "FSUC_PROBE = CHR ''p''"
definition FSUC_MOUNT :: char where "FSUC_MOUNT = CHR ''m''"
definition FSUC_UNMOUNT :: char where "FSUC_UNMOUNT = CHR ''u''"
definition FSUC_GETUUID :: char where "FSUC_GETUUID = CHR ''k''"
definition FSUC_SETUUID :: char where "FSUC_SETUUID = CHR ''s''"

subsection \<open>Device-name normalizer (main, lines 489-505)\<close>

text \<open>
  \<^verbatim>\<open>devname = argv[1]; cp = strrchr(devname, '/'); if (cp != 0) devname = cp + 1;
  if (*devname == 'r') devname++;\<close>
\<close>

definition after_last_slash :: "string \<Rightarrow> string" where
  "after_last_slash tok =
     (case strrchr tok (CHR ''/'') of
        Some cp \<Rightarrow> tl cp
      | None \<Rightarrow> tok)"

definition normalize_devname :: "string \<Rightarrow> string" where
  "normalize_devname tok =
     (let devname = after_last_slash tok
      in if cstr_at devname 0 = CHR ''r'' then tl devname else devname)"

definition rawdevice_of :: "string \<Rightarrow> string" where
  "rawdevice_of devname = snprintf_trunc MAXPATHLEN (''/dev/r'' @ devname)"

definition blockdevice_of :: "string \<Rightarrow> string" where
  "blockdevice_of devname = snprintf_trunc MAXPATHLEN (''/dev/'' @ devname)"

subsection \<open>Mount-table scanner (main, lines 517-542)\<close>

record statfs =
  f_mntfromname :: string
  f_mntonname :: string

text \<open>
  The \<^verbatim>\<open>for\<close> loop over the \<open>num\<close> entries that \<^verbatim>\<open>getmntinfo\<close> returned: the result
  is the final value of \<open>i\<close> and of \<open>is_mounted\<close>.
\<close>

function scan_loop :: "statfs list \<Rightarrow> string \<Rightarrow> nat \<Rightarrow> nat \<Rightarrow> nat \<Rightarrow> nat \<times> bool" where
  "scan_loop mnt blockdevice len num i =
     (if i < num then
        (if strlen (f_mntfromname (mnt ! i)) = len \<and>
            strcmp (f_mntfromname (mnt ! i)) blockdevice = 0
         then (i, True)
         else scan_loop mnt blockdevice len num (Suc i))
      else (i, False))"
  by pat_completeness auto
termination
  by (relation "measure (\<lambda>(mnt, blockdevice, len, num, i). num - i)") auto

declare scan_loop.simps [simp del]

text \<open>
  \<^verbatim>\<open>getmntinfo\<close> answers with the array of mounted filesystems, \<open>num\<close> being its
  length; \<open>num \<le> 0\<close> leaves \<open>is_mounted\<close> at 0.
\<close>

definition mount_scan :: "statfs list \<Rightarrow> string \<Rightarrow> nat \<times> bool" where
  "mount_scan mnt blockdevice =
     (let num = int (length mnt)
      in if num \<le> 0 then (0, False)
         else scan_loop mnt blockdevice (strlen blockdevice) (nat num) 0)"

definition is_mounted_of :: "statfs list \<Rightarrow> string \<Rightarrow> bool" where
  "is_mounted_of mnt blockdevice = snd (mount_scan mnt blockdevice)"

subsection \<open>GETUUID (main, lines 651-784)\<close>

text \<open>
  Modelled from the spec: the host's \<^verbatim>\<open>libkern/OSByteOrder.h\<close> is not among the
  sources. The spec has the UUID words converted from big-endian to host order;
  \<^verbatim>\<open>OSSwapBigToHostInt32\<close> on the little-endian hosts the tool is built for puts the
  four bytes in reverse order.
\<close>

definition OSSwapBigToHostInt32 :: "32 word \<Rightarrow> 32 word" where
  "OSSwapBigToHostInt32 x =
     push_bit 24 (x AND 0xFF) OR push_bit 8 (x AND 0xFF00) OR
     (drop_bit 8 x AND 0xFF00) OR (drop_bit 24 x AND 0xFF)"

text \<open>\<^verbatim>\<open>printf\<close>'s \<^verbatim>\<open>%0wX\<close>: upper-case hexadecimal, zero-padded to at least \<open>w\<close> digits.\<close>

definition hex_digit_upper :: "nat \<Rightarrow> char" where
  "hex_digit_upper d = ''0123456789ABCDEF'' ! d"

function hex_upper :: "nat \<Rightarrow> string" where
  "hex_upper n =
     (if n < 16 then [hex_digit_upper n]
      else hex_upper (n div 16) @ [hex_digit_upper (n mod 16)])"
  by pat_completeness auto
termination
  by (relation "measure id") auto

declare hex_upper.simps [simp del]

definition fmt_0X :: "nat \<Rightarrow> nat \<Rightarrow> string" where
  "fmt_0X w n = replicate (w - length (hex_upper n)) (CHR ''0'') @ hex_upper n"

text \<open>The arguments and format of the \<^verbatim>\<open>fprintf(stdout, ...)\<close> call, on the swapped words.\<close>

definition uuid_string :: "32 word \<Rightarrow> 32 word \<Rightarrow> 32 word \<Rightarrow> 32 word \<Rightarrow> string" where
  "uuid_string b1 b2 b3 b4 =
     fmt_0X 8 (unat b1) @ ''-'' @
     fmt_0X 4 (unat (drop_bit 16 (b2 AND 0xFFFF0000))) @ ''-'' @
     fmt_0X 4 (unat (b2 AND 0x0000FFFF)) @ ''-'' @
     fmt_0X 4 (unat (drop_bit 16 (b3 AND 0xFFFF0000))) @ ''-'' @
     fmt_0X 4 (unat (b3 AND 0x0000FFFF)) @
     fmt_0X 8 (unat b4)"

text \<open>
  The canonical textual form of the spec, read back from a string: the number that a
  group of upper-case hexadecimal digits denotes. It is defined on the characters alone
  and is what the output of \<^verbatim>\<open>fprintf\<close> is compared with.
\<close>

definition hex_char_value :: "char \<Rightarrow> nat" where
  "hex_char_value c =
     (let n = of_char c :: nat in
      if 48 \<le> n \<and> n \<le> 57 then n - 48
      else if 65 \<le> n \<and> n \<le> 70 then n - 55
      else 0)"

definition parse_hex :: "string \<Rightarrow> nat" where
  "parse_hex s = foldl (\<lambda>acc c. 16 * acc + hex_char_value c) 0 s"

text \<open>\<^verbatim>\<open>uint32_t buf[5]\<close>, as \<^verbatim>\<open>getattrlist\<close> fills it.\<close>

record uuid_buf =
  buf0 :: "32 word"
  buf1 :: "32 word"
  buf2 :: "32 word"
  buf3 :: "32 word"
  buf4 :: "32 word"

definition uuid_version_ok :: "32 word \<Rightarrow> bool" where
  "uuid_version_ok w2 \<longleftrightarrow> \<not> (w2 \<noteq> ((w2 AND 0xFFFF0FFF) OR 0x00003000))"

definition uuid_variant_ok :: "32 word \<Rightarrow> bool" where
  "uuid_variant_ok w3 \<longleftrightarrow> \<not> (w3 \<noteq> ((w3 AND 0x3FFFFFFF) OR 0x80000000))"

text \<open>
  The \<^verbatim>\<open>case FSUC_GETUUID\<close> block. \<open>attr\<close> is what \<^verbatim>\<open>getattrlist\<close> on the matched
  mount point answers: its return value and the buffer. The result is the final \<open>ret\<close>
  and the bytes written to stdout.
\<close>

definition getuuid_case :: "bool \<Rightarrow> int \<times> uuid_buf \<Rightarrow> int \<times> string" where
  "getuuid_case is_mounted attr =
     (if \<not> is_mounted then (FSUR_IO_FAIL, [])
      else
        let ret = fst attr; buf = snd attr in
        if ret \<noteq> 0 then (FSUR_IO_FAIL, [])
        else if buf0 buf < 5 * 4 then (FSUR_IO_FAIL, [])
        else
          let b1 = OSSwapBigToHostInt32 (buf1 buf);
              b2 = OSSwapBigToHostInt32 (buf2 buf);
              b3 = OSSwapBigToHostInt32 (buf3 buf);
              b4 = OSSwapBigToHostInt32 (buf4 buf);
              ret = (if \<not> uuid_version_ok b2 then FSUR_IO_FAIL else ret);
              ret = (if \<not> uuid_variant_ok b3 then FSUR_IO_FAIL else ret)
          in if ret = FSUR_IO_FAIL then (ret, [])
             else (FSUR_IO_SUCCESS, uuid_string b1 b2 b3 b4))"

subsection \<open>PROBE (main, lines 546-596)\<close>

text \<open>
  Modelled from the spec: the host's \<^verbatim>\<open>sys/attr.h\<close> is not among the sources. The
  spec's attribute reference is an offset and a length; \<^verbatim>\<open>attrreference_t\<close> is an
  \<^verbatim>\<open>int32_t\<close> offset followed by a \<^verbatim>\<open>u_int32_t\<close> length.
\<close>

record attrreference_t =
  attr_dataoffset :: "32 word"
  attr_length :: "32 word"

text \<open>
  The source's packed \<^verbatim>\<open>struct attrNameBuf\<close>. The field \<open>name_nb\<close> holds the bytes
  that \<^verbatim>\<open>getattrlist\<close> stored into \<^verbatim>\<open>name\<close>; the rest of the array keeps the zeros of
  \<^verbatim>\<open>bzero\<close>.
\<close>

record attrNameBuf =
  length_nb :: "32 word"
  nameRef :: attrreference_t
  name_nb :: string

definition offsetof_name :: nat where
  "offsetof_name = 4 + 8"

definition sizeof_attrNameBuf :: nat where
  "sizeof_attrNameBuf = 4 + 8 + MAXPATHLEN"

text \<open>The bytes of a \<^verbatim>\<open>uint32_t\<close> in memory, least significant first.\<close>

definition le32 :: "32 word \<Rightarrow> string" where
  "le32 w = [char_of (unat w), char_of (unat (drop_bit 8 w)),
             char_of (unat (drop_bit 16 w)), char_of (unat (drop_bit 24 w))]"

definition name_array :: "attrNameBuf \<Rightarrow> string" where
  "name_array nb = take MAXPATHLEN (name_nb nb @ replicate MAXPATHLEN NUL)"

definition attrNameBuf_bytes :: "attrNameBuf \<Rightarrow> string" where
  "attrNameBuf_bytes nb =
     le32 (length_nb nb) @ le32 (attr_dataoffset (nameRef nb)) @
     le32 (attr_length (nameRef nb)) @ name_array nb"

datatype fault = OutOfBoundsRead | BufferOverflow

text \<open>
  Reading a C string at byte \<open>j\<close> of an object: \<open>None\<close> when \<open>j\<close> is outside the
  object or no terminator follows inside it.
\<close>

definition cstring_from :: "string \<Rightarrow> int \<Rightarrow> string option" where
  "cstring_from mem j =
     (if j < 0 \<or> int (length mem) \<le> j then None
      else
        let rest = drop (nat j) mem in
        if NUL \<in> set rest then Some (takeWhile (\<lambda>c. c \<noteq> NUL) rest) else None)"

text \<open>
  \<^verbatim>\<open>snprintf(volname, n, "%s", src)\<close> into the zeroed \<^verbatim>\<open>volname[MAXPATHLEN]\<close>: nothing is
  stored for \<open>n = 0\<close>; otherwise \<open>min (strlen src) (n - 1)\<close> bytes and a terminator,
  which must fit the array.
\<close>

definition snprintf_volname :: "nat \<Rightarrow> string \<Rightarrow> string option" where
  "snprintf_volname n src =
     (if n = 0 then Some (replicate MAXPATHLEN NUL)
      else
        let k = min (strlen src) (n - 1) in
        if MAXPATHLEN < k + 1 then None
        else Some (take k src @ [NUL] @ replicate (MAXPATHLEN - (k + 1)) NUL))"

text \<open>
  The \<^verbatim>\<open>case FSUC_PROBE\<close> block. \<open>attr\<close> is what \<^verbatim>\<open>getattrlist\<close> on the matched mount
  point answers. The result is the final \<open>ret\<close> and the bytes written to stdout by
  \<^verbatim>\<open>write(1, volname, sizeof(volname))\<close>, or the fault of the string copy.
\<close>

definition probe_case :: "bool \<Rightarrow> int \<times> attrNameBuf \<Rightarrow> fault + int \<times> string" where
  "probe_case is_mounted attr =
     (if \<not> is_mounted then Inr (FSUR_UNRECOGNIZED, [])
      else
        let ret = fst attr; nameBuf = snd attr in
        if ret \<noteq> 0 then Inr (FSUR_UNRECOGNIZED, [])
        else if unat (length_nb nameBuf) < offsetof_name then Inr (FSUR_UNRECOGNIZED, [])
        else if unat (length_nb nameBuf) > sizeof_attrNameBuf then Inr (FSUR_UNRECOGNIZED, [])
        else
          (case cstring_from (attrNameBuf_bytes nameBuf)
                  (4 + sint (attr_dataoffset (nameRef nameBuf))) of
             None \<Rightarrow> Inl OutOfBoundsRead
           | Some src \<Rightarrow>
               (case snprintf_volname (unat (attr_length (nameRef nameBuf))) src of
                  None \<Rightarrow> Inl BufferOverflow
                | Some volname \<Rightarrow> Inr (FSUR_RECOGNIZED, volname))))"

subsection \<open>Action dispatcher (main)\<close>

record main_env =
  env_stat :: "string \<Rightarrow> int"
  env_getmntinfo :: "statfs list"
  env_getattrlist_name :: "string \<Rightarrow> int \<times> attrNameBuf"
  env_getattrlist_uuid :: "string \<Rightarrow> int \<times> uuid_buf"

text \<open>\<open>main\<close>: the exit status and the bytes written to stdout.\<close>

definition main :: "main_env \<Rightarrow> string list \<Rightarrow> fault + int \<times> string" where
  "main env argv0 =
     (let argc = int (length argv0) - 1; argv = tl argv0 in
      if argc < 2 \<or> cstr_at (argv ! 0) 0 \<noteq> CHR ''-'' then Inr (FSUR_INVAL, [])
      else
        let what = cstr_at (argv ! 0) 1;
            devname = normalize_devname (argv ! 1);
            blockdevice = blockdevice_of devname
        in
        if env_stat env blockdevice \<noteq> 0 then Inr (FSUR_INVAL, [])
        else
          let mnt = env_getmntinfo env;
              i = fst (mount_scan mnt blockdevice);
              is_mounted = snd (mount_scan mnt blockdevice)
          in
          if what = FSUC_PROBE then
            probe_case is_mounted (env_getattrlist_name env (f_mntonname (mnt ! i)))
          else if what = FSUC_GETUUID then
            Inr (getuuid_case is_mounted (env_getattrlist_uuid env (f_mntonname (mnt ! i))))
          else if what = FSUC_SETUUID then Inr (FSUR_INVAL, [])
          else if what = FSUC_MOUNT then Inr (FSUR_IO_FAIL, [])
          else if what = FSUC_UNMOUNT then Inr (FSUR_IO_FAIL, [])
          else Inr (FSUR_INVAL, []))"

subsection \<open>Name-value lists\<close>

text \<open>
  Modelled from the spec: libnvpair is not among the sources. The spec describes the
  cache manifest and the pool configurations as keyed containers whose entries are typed
  values, nested records among them, read through typed accessors for which a missing
  key is an answer, not a crash. An \<open>nvlist\<close> is the list of its pairs in iteration
  order; a typed lookup answers with the first pair of that name and type.
\<close>

datatype nvvalue =
    NvBoolean
  | NvUint32 "32 word"
  | NvUint64 "64 word"
  | NvString string
  | NvNvlist "(string \<times> nvvalue) list"

type_synonym nvlist = "(string \<times> nvvalue) list"

fun nvlist_lookup_uint64 :: "nvlist \<Rightarrow> string \<Rightarrow> 64 word option" where
  "nvlist_lookup_uint64 [] k = None"
| "nvlist_lookup_uint64 ((n, NvUint64 x) # rest) k =
     (if n = k then Some x else nvlist_lookup_uint64 rest k)"
| "nvlist_lookup_uint64 (_ # rest) k = nvlist_lookup_uint64 rest k"

fun nvlist_lookup_string :: "nvlist \<Rightarrow> string \<Rightarrow> string option" where
  "nvlist_lookup_string [] k = None"
| "nvlist_lookup_string ((n, NvString x) # rest) k =
     (if n = k then Some x else nvlist_lookup_string rest k)"
| "nvlist_lookup_string (_ # rest) k = nvlist_lookup_string rest k"

text \<open>\<^verbatim>\<open>nvpair_value_nvlist\<close>: \<open>None\<close> for a pair of another type.\<close>

fun nvpair_value_nvlist :: "string \<times> nvvalue \<Rightarrow> nvlist option" where
  "nvpair_value_nvlist (n, NvNvlist l) = Some l"
| "nvpair_value_nvlist _ = None"

text \<open>\<^verbatim>\<open>nvlist_add_nvlist\<close> on a list with unique names: the new pair replaces one of that name.\<close>

definition nvlist_add_nvlist :: "nvlist \<Rightarrow> string \<Rightarrow> nvlist \<Rightarrow> nvlist" where
  "nvlist_add_nvlist l k v = filter (\<lambda>p. fst p \<noteq> k) l @ [(k, NvNvlist v)]"

text \<open>
  Modelled from the spec: \<^verbatim>\<open>sys/fs/zfs.h\<close> is not among the sources. The spec names
  the keys \<^verbatim>\<open>pool_name\<close>, \<^verbatim>\<open>pool_state\<close>, \<^verbatim>\<open>version\<close>, \<^verbatim>\<open>pool_guid\<close> and
  \<^verbatim>\<open>hostid\<close>, the pool states \<open>EXPORTED\<close>, \<open>DESTROYED\<close> and \<open>UNAVAIL\<close>, and the
  import flags \<open>NORMAL\<close>, \<open>ANY_HOST\<close> and \<open>IMPORT_ONLY\<close>; the strings and numbers are
  those of the header.
\<close>

definition ZPOOL_CONFIG_POOL_NAME :: string where "ZPOOL_CONFIG_POOL_NAME = ''name''"
definition ZPOOL_CONFIG_POOL_STATE :: string where "ZPOOL_CONFIG_POOL_STATE = ''state''"
definition ZPOOL_CONFIG_VERSION :: string where "ZPOOL_CONFIG_VERSION = ''version''"
definition ZPOOL_CONFIG_POOL_GUID :: string where "ZPOOL_CONFIG_POOL_GUID = ''pool_guid''"
definition ZPOOL_CONFIG_HOSTID :: string where "ZPOOL_CONFIG_HOSTID = ''hostid''"
definition ZPOOL_CONFIG_HOSTNAME :: string where "ZPOOL_CONFIG_HOSTNAME = ''hostname''"
definition ZPOOL_CONFIG_TIMESTAMP :: string where "ZPOOL_CONFIG_TIMESTAMP = ''timestamp''"
definition ZPOOL_REWIND_POLICY :: string where "ZPOOL_REWIND_POLICY = ''rewind-policy''"
definition ZPOOL_REWIND_REQUEST :: string where "ZPOOL_REWIND_REQUEST = ''rewind-request''"
definition ZPOOL_REWIND_REQUEST_TXG :: string where
  "ZPOOL_REWIND_REQUEST_TXG = ''rewind-request-txg''"

definition POOL_STATE_EXPORTED :: int where "POOL_STATE_EXPORTED = 1"
definition POOL_STATE_DESTROYED :: int where "POOL_STATE_DESTROYED = 2"
definition POOL_STATE_UNAVAIL :: int where "POOL_STATE_UNAVAIL = 6"

definition ZFS_IMPORT_NORMAL :: "32 word" where "ZFS_IMPORT_NORMAL = 0x0"
definition ZFS_IMPORT_ANY_HOST :: "32 word" where "ZFS_IMPORT_ANY_HOST = 0x2"
definition ZFS_IMPORT_ONLY :: "32 word" where "ZFS_IMPORT_ONLY = 0x8"
definition ZPOOL_NO_REWIND :: "32 word" where "ZPOOL_NO_REWIND = 1"

subsection \<open>Collaborators and traces of the cache-import path\<close>

text \<open>
  What libzfs and the operating system answer during one call of
  \<^verbatim>\<open>zpool_import_by_guid\<close>. Each collaborator is called at most once per argument, so
  a field per call is enough. \<^verbatim>\<open>gethostid\<close> returns a 64-bit \<^verbatim>\<open>long\<close>, and
  \<^verbatim>\<open>unsigned long\<close> has 64 bits; \<open>env_version_supported\<close> is the macro
  \<^verbatim>\<open>SPA_VERSION_IS_SUPPORTED\<close>; a pool handle is represented by the name it was opened
  under and \<open>env_open_canfail\<close> answers with what \<^verbatim>\<open>zpool_get_state\<close> will return for it.
\<close>

record import_env =
  env_libzfs_init :: bool
  env_nvlist_alloc :: int
  env_add_txg :: int
  env_add_rewind :: int
  env_priv_ineffect :: bool
  env_search_import :: "64 word \<Rightarrow> nvlist option \<times> bool"
  env_config_add_policy :: "nvlist \<Rightarrow> int"
  env_gethostid :: "64 word"
  env_version_supported :: "64 word \<Rightarrow> bool"
  env_import_props :: "nvlist \<Rightarrow> int"
  env_open_canfail :: "string \<Rightarrow> int option"
  env_enable_datasets :: "string \<Rightarrow> int"

text \<open>
  The messages handed to \<^verbatim>\<open>printf\<close>, which the source defines to be
  \<^verbatim>\<open>zfs_util_log\<close>: the diagnostics of the import path. \<^verbatim>\<open>zfs_util_log\<close> writes
  them to stderr and to the system log when \<^verbatim>\<open>zfs_util_debug\<close> is set. A trace records
  the call.
\<close>

datatype message =
    MsgUnsupportedVersion string
  | MsgLastAccessedBy string string "64 word" "64 word"
  | MsgMayBeInUse string
  | MsgUseForce
  | MsgPermissionDenied
  | MsgAlreadyImported "64 word"
  | MsgNoSuchPool "64 word"
  | MsgReadingCachefile
  | MsgCachefileHasPool string
  | MsgCachefileHasPoolGuid string "64 word"
  | MsgImportError int

datatype event =
    Printf message
  | Zpool_import_props nvlist "string option" "nvlist option" "32 word"
  | Zpool_open_canfail string
  | Zpool_enable_datasets string "string option"
  | Zpool_close string
  | Call_zpool_import_by_guid "64 word"
  | Nvlist_free_manifest
  | Close_fd
  | Kmem_free_buf

datatype outcome = VerifyFailed | Returned int

text \<open>What \<^verbatim>\<open>zpool_import_by_guid\<close> holds: the library handle and its two nvlists.\<close>

record resources =
  g_zfs_live :: bool
  policy_live :: bool
  pools_live :: bool

subsection \<open>do_import (lines 132-204)\<close>

text \<open>
  The branch taken for a pool that is not exported when \<^verbatim>\<open>ZFS_IMPORT_ANY_HOST\<close> is not
  set: \<open>Some\<close> is the early exit, \<open>None\<close> falls through to the import.
\<close>

definition hostid_check :: "import_env \<Rightarrow> nvlist \<Rightarrow> string \<Rightarrow> (outcome \<times> event list) option" where
  "hostid_check env config name =
     (case nvlist_lookup_uint64 config ZPOOL_CONFIG_HOSTID of
        Some hostid \<Rightarrow>
          let system_hostid = env_gethostid env AND 0xffffffff in
          if hostid \<noteq> system_hostid then
            (case nvlist_lookup_string config ZPOOL_CONFIG_HOSTNAME of
               None \<Rightarrow> Some (VerifyFailed, [])
             | Some hostname \<Rightarrow>
                 (case nvlist_lookup_uint64 config ZPOOL_CONFIG_TIMESTAMP of
                    None \<Rightarrow> Some (VerifyFailed, [])
                  | Some timestamp \<Rightarrow>
                      Some (Returned 1,
                        [Printf (MsgLastAccessedBy name hostname hostid timestamp),
                         Printf MsgUseForce])))
          else None
      | None \<Rightarrow> Some (Returned 1, [Printf (MsgMayBeInUse name), Printf MsgUseForce]))"

text \<open>From the call of \<^verbatim>\<open>zpool_import_props\<close> to the end of \<^verbatim>\<open>do_import\<close>.\<close>

definition import_and_enable ::
  "import_env \<Rightarrow> nvlist \<Rightarrow> string \<Rightarrow> string option \<Rightarrow> string option \<Rightarrow> nvlist option \<Rightarrow>
   32 word \<Rightarrow> outcome \<times> event list" where
  "import_and_enable env config name0 newname mntopts props flags =
     (if env_import_props env config \<noteq> 0
      then (Returned 1, [Zpool_import_props config newname props flags])
      else
        let name = (case newname of Some n \<Rightarrow> n | None \<Rightarrow> name0) in
        case env_open_canfail env name of
          None \<Rightarrow>
            (Returned 1, [Zpool_import_props config newname props flags, Zpool_open_canfail name])
        | Some zstate \<Rightarrow>
            if zstate \<noteq> POOL_STATE_UNAVAIL \<and> flags AND ZFS_IMPORT_ONLY = 0
            then
              (if env_enable_datasets env name \<noteq> 0
               then (Returned 1,
                 [Zpool_import_props config newname props flags, Zpool_open_canfail name,
                  Zpool_enable_datasets name mntopts, Zpool_close name])
               else (Returned 0,
                 [Zpool_import_props config newname props flags, Zpool_open_canfail name,
                  Zpool_enable_datasets name mntopts, Zpool_close name]))
            else (Returned 0,
              [Zpool_import_props config newname props flags, Zpool_open_canfail name,
               Zpool_close name]))"

definition do_import ::
  "import_env \<Rightarrow> nvlist \<Rightarrow> string option \<Rightarrow> string option \<Rightarrow> nvlist option \<Rightarrow> 32 word \<Rightarrow>
   outcome \<times> event list" where
  "do_import env config newname mntopts props flags =
     (case nvlist_lookup_string config ZPOOL_CONFIG_POOL_NAME of
        None \<Rightarrow> (VerifyFailed, [])
      | Some name \<Rightarrow>
     (case nvlist_lookup_uint64 config ZPOOL_CONFIG_POOL_STATE of
        None \<Rightarrow> (VerifyFailed, [])
      | Some state \<Rightarrow>
     (case nvlist_lookup_uint64 config ZPOOL_CONFIG_VERSION of
        None \<Rightarrow> (VerifyFailed, [])
      | Some version \<Rightarrow>
          if \<not> env_version_supported env version
          then (Returned 1, [Printf (MsgUnsupportedVersion name)])
          else
            (case (if state \<noteq> word_of_int POOL_STATE_EXPORTED \<and>
                      flags AND ZFS_IMPORT_ANY_HOST = 0
                   then hostid_check env config name else None) of
               Some early \<Rightarrow> early
             | None \<Rightarrow> import_and_enable env config name newname mntopts props flags))))"

subsection \<open>zpool_import_by_guid (lines 206-323)\<close>

definition rewind_policy_nvlist :: nvlist where
  "rewind_policy_nvlist =
     [(ZPOOL_REWIND_REQUEST_TXG, NvUint64 (- 1)), (ZPOOL_REWIND_REQUEST, NvUint32 ZPOOL_NO_REWIND)]"

text \<open>
  The \<^verbatim>\<open>while\<close> loop over the candidates: the result is \<open>found_config\<close>, or \<open>None\<close>
  when a \<^verbatim>\<open>verify\<close> fails.
\<close>

fun find_candidate ::
  "import_env \<Rightarrow> 64 word \<Rightarrow> nvlist \<Rightarrow> nvlist option \<Rightarrow> nvlist option option" where
  "find_candidate env searchguid [] found_config = Some found_config"
| "find_candidate env searchguid (elem # rest) found_config =
     (case nvpair_value_nvlist elem of
        None \<Rightarrow> None
      | Some config \<Rightarrow>
     (case nvlist_lookup_uint64 config ZPOOL_CONFIG_POOL_STATE of
        None \<Rightarrow> None
      | Some pool_state \<Rightarrow>
          if pool_state = word_of_int POOL_STATE_DESTROYED
          then find_candidate env searchguid rest found_config
          else if env_config_add_policy env config \<noteq> 0 then None
          else
            let config = nvlist_add_nvlist config ZPOOL_REWIND_POLICY rewind_policy_nvlist in
            (case nvlist_lookup_uint64 config ZPOOL_CONFIG_POOL_GUID of
               None \<Rightarrow> None
             | Some guid \<Rightarrow>
                 find_candidate env searchguid rest
                   (if guid = searchguid then Some config else found_config))))"

text \<open>The label \<^verbatim>\<open>error:\<close> frees both lists and finalizes the handle.\<close>

definition error_label :: "resources \<Rightarrow> resources" where
  "error_label res = res\<lparr>pools_live := False, policy_live := False, g_zfs_live := False\<rparr>"

definition zpool_import_by_guid ::
  "import_env \<Rightarrow> 64 word \<Rightarrow> outcome \<times> event list \<times> resources" where
  "zpool_import_by_guid env searchguid =
     (let res = \<lparr>g_zfs_live = False, policy_live = False, pools_live = False\<rparr> in
      if \<not> env_libzfs_init env then (Returned 1, [], res)
      else
        let res = res\<lparr>g_zfs_live := True\<rparr>;
            res = res\<lparr>policy_live := (env_nvlist_alloc env = 0)\<rparr> in
        if env_nvlist_alloc env \<noteq> 0 \<or> env_add_txg env \<noteq> 0 \<or> env_add_rewind env \<noteq> 0
        then (Returned 0, [], error_label res)
        else if \<not> env_priv_ineffect env
        then (Returned 1, [Printf MsgPermissionDenied], res\<lparr>policy_live := False\<rparr>)
        else
          (case fst (env_search_import env searchguid) of
             None \<Rightarrow>
               (Returned 1,
                [Printf (if snd (env_search_import env searchguid)
                         then MsgAlreadyImported searchguid else MsgNoSuchPool searchguid)],
                res\<lparr>policy_live := False\<rparr>)
           | Some pools \<Rightarrow>
               let res = res\<lparr>pools_live := True\<rparr> in
               (case find_candidate env searchguid pools None of
                  None \<Rightarrow> (VerifyFailed, [], res)
                | Some None \<Rightarrow>
                    (Returned 1, [Printf (MsgNoSuchPool searchguid)], error_label res)
                | Some (Some found_config) \<Rightarrow>
                    (case do_import env found_config None None None ZFS_IMPORT_NORMAL of
                       (VerifyFailed, evs) \<Rightarrow> (VerifyFailed, evs, res)
                     | (Returned r, evs) \<Rightarrow>
                         let err = 0 OR r in
                         (Returned (if err \<noteq> 0 then 1 else 0), evs, error_label res)))))"

subsection \<open>zpool_read_cachefile (lines 389-445)\<close>

text \<open>
  The walk over the unpacked manifest. \<open>envs k\<close> is what the collaborators answer during
  the \<open>k\<close>-th call of \<^verbatim>\<open>zpool_import_by_guid\<close>. The result is whether the walk reached
  the end of the manifest (a failed \<^verbatim>\<open>verify\<close> ends the process) and the trace.
\<close>

fun cachefile_walk :: "(nat \<Rightarrow> import_env) \<Rightarrow> nat \<Rightarrow> nvlist \<Rightarrow> bool \<times> event list" where
  "cachefile_walk envs k [] = (True, [])"
| "cachefile_walk envs k ((nm, NvNvlist child) # rest) =
     (case nvlist_lookup_uint64 child ZPOOL_CONFIG_POOL_GUID of
        Some guid \<Rightarrow>
          (case zpool_import_by_guid (envs k) guid of
             (VerifyFailed, evs, res) \<Rightarrow>
               (False,
                [Printf (MsgCachefileHasPool nm), Printf (MsgCachefileHasPoolGuid nm guid),
                 Call_zpool_import_by_guid guid] @ evs)
           | (Returned importrc, evs, res) \<Rightarrow>
               (fst (cachefile_walk envs (Suc k) rest),
                [Printf (MsgCachefileHasPool nm), Printf (MsgCachefileHasPoolGuid nm guid),
                 Call_zpool_import_by_guid guid] @ evs @ [Printf (MsgImportError importrc)] @
                snd (cachefile_walk envs (Suc k) rest)))
      | None \<Rightarrow>
          (fst (cachefile_walk envs k rest),
           Printf (MsgCachefileHasPool nm) # snd (cachefile_walk envs k rest)))"
| "cachefile_walk envs k (_ # rest) = cachefile_walk envs k rest"

record cache_env =
  env_open :: int
  env_fstat :: "int \<times> int"
  env_kmem_alloc :: bool
  env_read :: int
  env_nvlist_unpack :: "nvlist option"
  env_import :: "nat \<Rightarrow> import_env"

definition zpool_read_cachefile :: "cache_env \<Rightarrow> bool \<times> event list" where
  "zpool_read_cachefile env =
     (if env_open env < 0 then (True, [Printf MsgReadingCachefile])
      else if fst (env_fstat env) \<noteq> 0 \<or> snd (env_fstat env) = 0
      then (True, [Printf MsgReadingCachefile, Close_fd])
      else if \<not> env_kmem_alloc env
      then (True, [Printf MsgReadingCachefile, Close_fd])
      else if env_read env \<noteq> snd (env_fstat env)
      then (True, [Printf MsgReadingCachefile, Close_fd, Kmem_free_buf])
      else
        (case env_nvlist_unpack env of
           None \<Rightarrow> (True, [Printf MsgReadingCachefile, Close_fd, Kmem_free_buf])
         | Some nvlist \<Rightarrow>
             if fst (cachefile_walk (env_import env) 0 nvlist)
             then (True,
               [Printf MsgReadingCachefile] @ snd (cachefile_walk (env_import env) 0 nvlist) @
               [Nvlist_free_manifest, Close_fd, Kmem_free_buf])
             else (False,
               [Printf MsgReadingCachefile] @ snd (cachefile_walk (env_import env) 0 nvlist))))"

text \<open>The guids handed to \<^verbatim>\<open>zpool_import_by_guid\<close>, in the order of the calls.\<close>

fun import_attempts :: "event list \<Rightarrow> 64 word list" where
  "import_attempts [] = []"
| "import_attempts (Call_zpool_import_by_guid g # evs) = g # import_attempts evs"
| "import_attempts (_ # evs) = import_attempts evs"

text \<open>The configurations handed to \<^verbatim>\<open>zpool_import_props\<close>.\<close>

fun import_props_calls :: "event list \<Rightarrow> nvlist list" where
  "import_props_calls [] = []"
| "import_props_calls (Zpool_import_props c n p f # evs) = c # import_props_calls evs"
| "import_props_calls (_ # evs) = import_props_calls evs"

text \<open>
  The manifest entries the spec calls qualifying: a nested record that has a
  \<^verbatim>\<open>pool_guid\<close>. \<open>manifest_guids\<close> lists their guids in the manifest's order.
\<close>

fun qualifying_guid :: "string \<times> nvvalue \<Rightarrow> 64 word option" where
  "qualifying_guid (nm, NvNvlist child) = nvlist_lookup_uint64 child ZPOOL_CONFIG_POOL_GUID"
| "qualifying_guid _ = None"

definition manifest_guids :: "nvlist \<Rightarrow> 64 word list" where
  "manifest_guids nvl = List.map_filter qualifying_guid nvl"

text \<open>
  The ordering guarantee of the spec, on the list of qualifying guids alone:
  \<open>attempts_until_abort\<close> is that list cut after the first guid whose import ends the
  process by a failed \<^verbatim>\<open>verify\<close>, and \<open>imports_return\<close> says that no import does. The
  \<open>j\<close>-th import runs against \<open>envs (k + j)\<close>.
\<close>

fun attempts_until_abort :: "(nat \<Rightarrow> import_env) \<Rightarrow> nat \<Rightarrow> 64 word list \<Rightarrow> 64 word list" where
  "attempts_until_abort envs k [] = []"
| "attempts_until_abort envs k (g # gs) =
     g # (if fst (zpool_import_by_guid (envs k) g) = VerifyFailed then []
          else attempts_until_abort envs (Suc k) gs)"

fun imports_return :: "(nat \<Rightarrow> import_env) \<Rightarrow> nat \<Rightarrow> 64 word list \<Rightarrow> bool" where
  "imports_return envs k [] \<longleftrightarrow> True"
| "imports_return envs k (g # gs) \<longleftrightarrow>
     fst (zpool_import_by_guid (envs k) g) \<noteq> VerifyFailed \<and> imports_return envs (Suc k) gs"

text \<open>
  What the \<^verbatim>\<open>verify\<close> calls of the import path assert about the collaborators' answers:
  every candidate of the search is a nested record with a pool state and, unless it is
  destroyed, the policy can be attached to it and it carries a pool guid and the keys
  that \<^verbatim>\<open>do_import\<close> reads.
\<close>

definition config_asserted_keys :: "nvlist \<Rightarrow> bool" where
  "config_asserted_keys c \<longleftrightarrow>
     nvlist_lookup_string c ZPOOL_CONFIG_POOL_NAME \<noteq> None \<and>
     nvlist_lookup_uint64 c ZPOOL_CONFIG_POOL_STATE \<noteq> None \<and>
     nvlist_lookup_uint64 c ZPOOL_CONFIG_VERSION \<noteq> None \<and>
     nvlist_lookup_string c ZPOOL_CONFIG_HOSTNAME \<noteq> None \<and>
     nvlist_lookup_uint64 c ZPOOL_CONFIG_TIMESTAMP \<noteq> None"

definition candidate_ok :: "import_env \<Rightarrow> string \<times> nvvalue \<Rightarrow> bool" where
  "candidate_ok env elem =
     (case nvpair_value_nvlist elem of
        None \<Rightarrow> False
      | Some config \<Rightarrow>
          (case nvlist_lookup_uint64 config ZPOOL_CONFIG_POOL_STATE of
             None \<Rightarrow> False
           | Some pool_state \<Rightarrow>
               pool_state = word_of_int POOL_STATE_DESTROYED \<or>
               (env_config_add_policy env config = 0 \<and>
                nvlist_lookup_uint64
                  (nvlist_add_nvlist config ZPOOL_REWIND_POLICY rewind_policy_nvlist)
                  ZPOOL_CONFIG_POOL_GUID \<noteq> None \<and>
                config_asserted_keys
                  (nvlist_add_nvlist config ZPOOL_REWIND_POLICY rewind_policy_nvlist))))"

definition candidates_ok :: "import_env \<Rightarrow> 64 word \<Rightarrow> bool" where
  "candidates_ok env g =
     (case fst (env_search_import env g) of
        None \<Rightarrow> True
      | Some pools \<Rightarrow> list_all (candidate_ok env) pools)"

subsection \<open>Example inputs\<close>

text \<open>
  A host whose \<^verbatim>\<open>gethostid\<close> is \<open>0xFFFFFFFF8A2B3C4D\<close>, on which every collaborator
  succeeds and the search finds no candidate; a pool configuration last written by that
  host; and a cache manifest of two pools with an entry in between that is not a record.
\<close>

definition example_env :: import_env where
  "example_env =
     \<lparr>env_libzfs_init = True, env_nvlist_alloc = 0, env_add_txg = 0, env_add_rewind = 0,
      env_priv_ineffect = True,
      env_search_import = (\<lambda>g. (None, False)),
      env_config_add_policy = (\<lambda>c. 0),
      env_gethostid = 0xFFFFFFFF8A2B3C4D,
      env_version_supported = (\<lambda>v. (1 \<le> v \<and> v \<le> 28) \<or> v = 5000),
      env_import_props = (\<lambda>c. 0),
      env_open_canfail = (\<lambda>n. Some 0),
      env_enable_datasets = (\<lambda>n. 0)\<rparr>"

definition example_config :: "64 word \<Rightarrow> nvlist" where
  "example_config g =
     [(''version'', NvUint64 5000), (''name'', NvString ''vault''), (''state'', NvUint64 0),
      (''pool_guid'', NvUint64 g), (''hostid'', NvUint64 0x8A2B3C4D),
      (''hostname'', NvString ''mac''), (''timestamp'', NvUint64 1700000000)]"


definition example_envs :: "nat \<Rightarrow> import_env" where
  "example_envs k =
     (if k = 0 then example_env
      else example_env\<lparr>env_search_import :=
             (\<lambda>g. (Some [(''vault'', NvNvlist (example_config 0x2222))], False))\<rparr>)"

definition example_manifest :: nvlist where
  "example_manifest =
     [(''tank'', NvNvlist [(''pool_guid'', NvUint64 0x1111)]),
      (''comment'', NvString ''not a pool''),
      (''vault'', NvNvlist [(''pool_guid'', NvUint64 0x2222)])]"


definition example_envs_enomem :: "nat \<Rightarrow> import_env" where
  "example_envs_enomem k =
     example_env\<lparr>env_search_import :=
         (\<lambda>g. (Some [(''pool'', NvNvlist (example_config g))], False)),
       env_config_add_policy := (\<lambda>c. if k = 0 then 12 else 0)\<rparr>"

text \<open>
  Scenario 1 of the spec: the mount table holds \<^verbatim>\<open>/dev/disk3s1\<close> on
  \<^verbatim>\<open>/Volumes/Data\<close>, and the attribute read of that mount point answers with the name
  \<^verbatim>\<open>Data\<close>.
\<close>

definition example_main_env :: main_env where
  "example_main_env =
     \<lparr>env_stat = (\<lambda>path. if path = ''/dev/disk3s1'' then 0 else - 1),
      env_getmntinfo =
        [\<lparr>f_mntfromname = ''/dev/disk3'', f_mntonname = ''/Volumes/Tank''\<rparr>,
         \<lparr>f_mntfromname = ''/dev/disk3s1'', f_mntonname = ''/Volumes/Data''\<rparr>],
      env_getattrlist_name =
        (\<lambda>mp. if mp = ''/Volumes/Data''
              then (0, \<lparr>length_nb = 20, nameRef = \<lparr>attr_dataoffset = 8, attr_length = 5\<rparr>,
                       name_nb = ''Data''\<rparr>)
              else (- 1, \<lparr>length_nb = 0, nameRef = \<lparr>attr_dataoffset = 0, attr_length = 0\<rparr>,
                        name_nb = []\<rparr>)),
      env_getattrlist_uuid =
        (\<lambda>mp. (0, \<lparr>buf0 = 20, buf1 = 0xDDCCBBAA, buf2 = 0x44332211, buf3 = 0x78563482,
                    buf4 = 0xEFBEADDE\<rparr>))\<rparr>"

section \<open>Properties\<close>

subsection \<open>C strings\<close>

lemma strcmp_eq_0_iff: "length a = length b \<Longrightarrow> strcmp a b = 0 \<longleftrightarrow> a = b"
  by (induction a b rule: list_induct2) auto

lemma strrchr_None_iff: "strrchr s c = None \<longleftrightarrow> c \<notin> set s"
  by (induction s) (auto split: option.splits)

lemma strrchr_Some_decomp:
  "strrchr s c = Some t \<Longrightarrow> \<exists>pre. s = pre @ t \<and> t \<noteq> [] \<and> hd t = c \<and> c \<notin> set (tl t)"
proof (induction s arbitrary: t)
  case Nil
  then show ?case by simp
next
  case (Cons x xs)
  show ?case
  proof (cases "strrchr xs c")
    case None
    with Cons.prems have "x = c" and "t = x # xs"
      by (auto split: if_splits)
    moreover from None have "c \<notin> set xs"
      by (simp add: strrchr_None_iff)
    ultimately show ?thesis by auto
  next
    case (Some s)
    with Cons.prems have "t = s" by simp
    with Cons.IH [OF Some] obtain pre where "xs = pre @ t" "t \<noteq> []" "hd t = c" "c \<notin> set (tl t)"
      by auto
    then have "x # xs = (x # pre) @ t" by simp
    with \<open>t \<noteq> []\<close> \<open>hd t = c\<close> \<open>c \<notin> set (tl t)\<close> show ?thesis by blast
  qed
qed

lemma after_last_slash_no_slash: "CHR ''/'' \<notin> set (after_last_slash tok)"
proof (cases "strrchr tok (CHR ''/'')")
  case None
  then have "CHR ''/'' \<notin> set tok"
    by (simp add: strrchr_None_iff)
  with None show ?thesis
    by (simp add: after_last_slash_def)
next
  case (Some cp)
  from strrchr_Some_decomp [OF Some] show ?thesis
    by (auto simp: after_last_slash_def Some)
qed

subsection \<open>Device-name normalizer\<close>

lemma normalize_devname_no_slash: "CHR ''/'' \<notin> set (normalize_devname tok)"
proof -
  have "set (tl (after_last_slash tok)) \<subseteq> set (after_last_slash tok)"
    by (cases "after_last_slash tok") auto
  with after_last_slash_no_slash [of tok] show ?thesis
    by (auto simp: normalize_devname_def Let_def)
qed

lemma normalize_devname_leading_r:
  "cstr_at (normalize_devname tok) 0 = CHR ''r'' \<longleftrightarrow>
     (\<exists>rest. after_last_slash tok = ''rr'' @ rest)"
proof (cases "after_last_slash tok")
  case Nil
  then show ?thesis
    by (simp add: normalize_devname_def Let_def cstr_at_def NUL_def)
next
  case (Cons x xs)
  then show ?thesis
    by (cases xs) (auto simp: normalize_devname_def Let_def cstr_at_def NUL_def)
qed

text \<open>
  C1, as the code has it: the short name never contains \<open>/\<close>. Only one leading \<open>r\<close> is
  dropped, so the short name begins with \<open>r\<close> exactly when the part of the token after
  its last \<open>/\<close> begins with \<open>rr\<close>; it is that part without its first \<open>r\<close>, or that part
  itself when it does not begin with \<open>r\<close>.
\<close>

theorem normalize_devname_shape:
  "CHR ''/'' \<notin> set (normalize_devname tok) \<and>
   (cstr_at (normalize_devname tok) 0 = CHR ''r'' \<longleftrightarrow>
      (\<exists>rest. after_last_slash tok = ''rr'' @ rest)) \<and>
   (after_last_slash tok = CHR ''r'' # normalize_devname tok \<or>
    (after_last_slash tok = normalize_devname tok \<and> cstr_at (after_last_slash tok) 0 \<noteq> CHR ''r''))"
proof -
  have "after_last_slash tok = CHR ''r'' # normalize_devname tok \<or>
    (after_last_slash tok = normalize_devname tok \<and> cstr_at (after_last_slash tok) 0 \<noteq> CHR ''r'')"
    by (cases "after_last_slash tok") (auto simp: normalize_devname_def Let_def cstr_at_def NUL_def)
  with normalize_devname_no_slash [of tok] normalize_devname_leading_r [of tok]
  show ?thesis by blast
qed

theorem normalize_devname_shape_witness:
  "normalize_devname ''/dev/rdisk3s1'' = ''disk3s1'' \<and>
   CHR ''/'' \<notin> set (normalize_devname ''/dev/rdisk3s1'') \<and>
   cstr_at (normalize_devname ''/dev/rdisk3s1'') 0 \<noteq> CHR ''r'' \<and>
   after_last_slash ''/dev/rdisk3s1'' = CHR ''r'' # normalize_devname ''/dev/rdisk3s1''"
  using normalize_devname_shape [of "''/dev/rdisk3s1''"]
  by (simp add: normalize_devname_def after_last_slash_def cstr_at_def)

text \<open>
  C1 as stated fails: the token \<^verbatim>\<open>/dev/rrdisk3\<close> is normalized to \<^verbatim>\<open>rdisk3\<close>, which
  begins with \<open>r\<close>.
\<close>

theorem normalize_devname_counterexample:
  "normalize_devname ''/dev/rrdisk3'' = ''rdisk3'' \<and>
   cstr_at (normalize_devname ''/dev/rrdisk3'') 0 = CHR ''r''"
  by (simp add: normalize_devname_def after_last_slash_def cstr_at_def)

subsection \<open>Mount-table scanner\<close>

lemma scan_loop_snd:
  "snd (scan_loop mnt blockdevice len num i) \<longleftrightarrow>
     (\<exists>j. i \<le> j \<and> j < num \<and> strlen (f_mntfromname (mnt ! j)) = len \<and>
          strcmp (f_mntfromname (mnt ! j)) blockdevice = 0)"
proof (induction mnt blockdevice len num i rule: scan_loop.induct)
  case (1 mnt blockdevice len num i)
  show ?case
  proof (cases "i < num")
    case False
    then show ?thesis
      by (subst scan_loop.simps) auto
  next
    case True
    show ?thesis
    proof (cases "strlen (f_mntfromname (mnt ! i)) = len \<and>
        strcmp (f_mntfromname (mnt ! i)) blockdevice = 0")
      case hit: True
      with \<open>i < num\<close> show ?thesis
        by (subst scan_loop.simps) auto
    next
      case miss: False
      have "(\<exists>j. i \<le> j \<and> j < num \<and> strlen (f_mntfromname (mnt ! j)) = len \<and>
              strcmp (f_mntfromname (mnt ! j)) blockdevice = 0) \<longleftrightarrow>
            (\<exists>j. Suc i \<le> j \<and> j < num \<and> strlen (f_mntfromname (mnt ! j)) = len \<and>
              strcmp (f_mntfromname (mnt ! j)) blockdevice = 0)"
        using miss by (metis Suc_leI Suc_leD le_neq_implies_less)
      with 1 [OF True miss] True miss show ?thesis
        by (subst scan_loop.simps) auto
    qed
  qed
qed

lemma scan_loop_fst:
  "snd (scan_loop mnt blockdevice len num i) \<Longrightarrow>
     i \<le> fst (scan_loop mnt blockdevice len num i) \<and>
     fst (scan_loop mnt blockdevice len num i) < num \<and>
     strlen (f_mntfromname (mnt ! fst (scan_loop mnt blockdevice len num i))) = len \<and>
     strcmp (f_mntfromname (mnt ! fst (scan_loop mnt blockdevice len num i))) blockdevice = 0"
proof (induction mnt blockdevice len num i rule: scan_loop.induct)
  case (1 mnt blockdevice len num i)
  show ?case
  proof (cases "i < num")
    case False
    then have "scan_loop mnt blockdevice len num i = (i, False)"
      by (subst scan_loop.simps) simp
    with "1.prems" show ?thesis by simp
  next
    case True
    show ?thesis
    proof (cases "strlen (f_mntfromname (mnt ! i)) = len \<and>
        strcmp (f_mntfromname (mnt ! i)) blockdevice = 0")
      case hit: True
      with \<open>i < num\<close> have "scan_loop mnt blockdevice len num i = (i, True)"
        by (subst scan_loop.simps) simp
      with hit \<open>i < num\<close> show ?thesis by simp
    next
      case miss: False
      with True have eq: "scan_loop mnt blockdevice len num i =
          scan_loop mnt blockdevice len num (Suc i)"
        by (subst scan_loop.simps) auto
      with "1.prems" have "snd (scan_loop mnt blockdevice len num (Suc i))"
        by simp
      from "1.IH" [OF True miss this] show ?thesis
        unfolding eq by simp
    qed
  qed
qed

lemma is_mounted_of_iff_index:
  "is_mounted_of mnt blockdevice \<longleftrightarrow>
     (\<exists>j < length mnt. length (f_mntfromname (mnt ! j)) = length blockdevice \<and>
        f_mntfromname (mnt ! j) = blockdevice)"
proof (cases mnt)
  case Nil
  then show ?thesis
    by (simp add: is_mounted_of_def mount_scan_def)
next
  case (Cons e es)
  then have "is_mounted_of mnt blockdevice \<longleftrightarrow>
      snd (scan_loop mnt blockdevice (strlen blockdevice) (length mnt) 0)"
    by (simp add: is_mounted_of_def mount_scan_def Let_def del: of_nat_Suc)
  also have "\<dots> \<longleftrightarrow> (\<exists>j < length mnt. length (f_mntfromname (mnt ! j)) = length blockdevice \<and>
        f_mntfromname (mnt ! j) = blockdevice)"
    unfolding scan_loop_snd strlen_def
    by (auto simp: strcmp_eq_0_iff)
  finally show ?thesis .
qed

text \<open>
  C6: the scanner reports the device as mounted if and only if some mount entry's source
  path has the length of the block path and the same bytes; when every source path is a
  strict prefix of the block path (\<^verbatim>\<open>/dev/disk3\<close> against \<^verbatim>\<open>/dev/disk3s1\<close>), or just
  differs from it, the device is not reported as mounted.
\<close>

theorem mount_scan_exact_match:
  "(is_mounted_of mnt blockdevice \<longleftrightarrow>
      (\<exists>e \<in> set mnt. length (f_mntfromname e) = length blockdevice \<and>
         f_mntfromname e = blockdevice)) \<and>
   ((\<forall>e \<in> set mnt. strict_prefix (f_mntfromname e) blockdevice) \<longrightarrow>
      \<not> is_mounted_of mnt blockdevice)"
proof -
  have iff: "is_mounted_of mnt blockdevice \<longleftrightarrow>
      (\<exists>e \<in> set mnt. length (f_mntfromname e) = length blockdevice \<and>
         f_mntfromname e = blockdevice)"
    unfolding is_mounted_of_iff_index
    by (metis in_set_conv_nth)
  moreover have "(\<forall>e \<in> set mnt. strict_prefix (f_mntfromname e) blockdevice) \<longrightarrow>
      \<not> is_mounted_of mnt blockdevice"
    unfolding iff by (auto simp: strict_prefix_def)
  ultimately show ?thesis by blast
qed

theorem mount_scan_exact_match_witness:
  "is_mounted_of
     [\<lparr>f_mntfromname = ''/dev/disk3'', f_mntonname = ''/Volumes/Tank''\<rparr>,
      \<lparr>f_mntfromname = ''/dev/disk3s1'', f_mntonname = ''/Volumes/Data''\<rparr>] ''/dev/disk3s1'' \<and>
   strict_prefix ''/dev/disk3'' ''/dev/disk3s1'' \<and>
   \<not> is_mounted_of
     [\<lparr>f_mntfromname = ''/dev/disk3'', f_mntonname = ''/Volumes/Tank''\<rparr>] ''/dev/disk3s1''"
  using mount_scan_exact_match
    [of "[\<lparr>f_mntfromname = ''/dev/disk3'', f_mntonname = ''/Volumes/Tank''\<rparr>,
          \<lparr>f_mntfromname = ''/dev/disk3s1'', f_mntonname = ''/Volumes/Data''\<rparr>]" "''/dev/disk3s1''"]
    mount_scan_exact_match
    [of "[\<lparr>f_mntfromname = ''/dev/disk3'', f_mntonname = ''/Volumes/Tank''\<rparr>]" "''/dev/disk3s1''"]
  by (simp add: strict_prefix_def)

subsection \<open>UUID validation and formatting\<close>

lemma mask_or_iff:
  fixes w m c :: "32 word"
  assumes "c AND m = 0" and "m OR m' = - 1" and "m AND m' = 0"
  shows "w = (w AND m) OR c \<longleftrightarrow> w AND m' = c"
  using assms by (auto simp: bit_eq_iff bit_simps)

lemma uuid_version_ok_iff: "uuid_version_ok w \<longleftrightarrow> w AND 0x0000F000 = 0x00003000"
  unfolding uuid_version_ok_def
  using mask_or_iff [of "0x3000" "0xFFFF0FFF" "0xF000" w] by simp

lemma uuid_variant_ok_iff: "uuid_variant_ok w \<longleftrightarrow> w AND 0xC0000000 = 0x80000000"
  unfolding uuid_variant_ok_def
  using mask_or_iff [of "0x80000000" "0x3FFFFFFF" "0xC0000000" w] by simp

lemma unat_high_half: "unat (drop_bit 16 ((w::32 word) AND 0xFFFF0000)) < 16 ^ 4"
proof -
  have "unat (w AND 0xFFFF0000) < 2 ^ 32"
    using unsigned_less [of "w AND 0xFFFF0000", where ?'a = nat] by simp
  then have "unat (w AND 0xFFFF0000) div 2 ^ 16 < 2 ^ 16"
    by (simp add: less_mult_imp_div_less)
  moreover have "unat (drop_bit 16 (w AND 0xFFFF0000)) = unat (w AND 0xFFFF0000) div 2 ^ 16"
    unfolding unat_drop_bit_eq by (simp only: drop_bit_eq_div)
  ultimately show ?thesis
    by simp
qed

lemma unat_low_half: "unat ((w::32 word) AND 0x0000FFFF) < 16 ^ 4"
proof -
  have "unat (w AND 0xFFFF) \<le> unat (0xFFFF :: 32 word)"
    by (rule word_and_le1 [THEN word_le_nat_alt [THEN iffD1]])
  then show ?thesis by simp
qed

lemma unat_word32: "unat (w::32 word) < 16 ^ 8"
  using unsigned_less [of w, where ?'a = nat] by simp

lemma hex_digit_upper_set: "d < 16 \<Longrightarrow> hex_digit_upper d \<in> set ''0123456789ABCDEF''"
  unfolding hex_digit_upper_def by (rule nth_mem) simp

lemma hex_upper_set: "set (hex_upper n) \<subseteq> set ''0123456789ABCDEF''"
proof (induction n rule: hex_upper.induct)
  case (1 n)
  show ?case
  proof (cases "n < 16")
    case True
    with hex_digit_upper_set [of n] show ?thesis
      by (subst hex_upper.simps) simp
  next
    case False
    have "n mod 16 < 16" by simp
    from hex_digit_upper_set [OF this] "1.IH" [OF False] False show ?thesis
      by (subst hex_upper.simps) simp
  qed
qed

lemma hex_upper_length: "0 < w \<Longrightarrow> n < 16 ^ w \<Longrightarrow> length (hex_upper n) \<le> w"
proof (induction n arbitrary: w rule: hex_upper.induct)
  case (1 n)
  show ?case
  proof (cases "n < 16")
    case True
    with 1 show ?thesis
      by (subst hex_upper.simps) simp
  next
    case False
    with "1.prems" obtain v where w: "w = Suc v"
      by (cases w) auto
    with False "1.prems" have "0 < v"
      by (cases v) auto
    moreover have "n div 16 < 16 ^ v"
      using "1.prems" w by (simp add: less_mult_imp_div_less mult.commute)
    ultimately have "length (hex_upper (n div 16)) \<le> v"
      using "1.IH" [OF False] by simp
    with False w show ?thesis
      by (subst hex_upper.simps) simp
  qed
qed

lemma fmt_0X_length: "0 < w \<Longrightarrow> n < 16 ^ w \<Longrightarrow> length (fmt_0X w n) = w"
  using hex_upper_length [of w n] by (simp add: fmt_0X_def)

lemma fmt_0X_set: "set (fmt_0X w n) \<subseteq> set ''0123456789ABCDEF''"
  using hex_upper_set [of n] by (auto simp: fmt_0X_def)

lemma uuid_string_length: "length (uuid_string b1 b2 b3 b4) = 36"
proof -
  have "length (fmt_0X 8 (unat b1)) = 8" "length (fmt_0X 8 (unat b4)) = 8"
    by (rule fmt_0X_length, simp, rule unat_word32)+
  moreover have "length (fmt_0X 4 (unat (drop_bit 16 (b2 AND 0xFFFF0000)))) = 4"
    "length (fmt_0X 4 (unat (drop_bit 16 (b3 AND 0xFFFF0000)))) = 4"
    by (rule fmt_0X_length, simp, rule unat_high_half)+
  moreover have "length (fmt_0X 4 (unat (b2 AND 0x0000FFFF))) = 4"
    "length (fmt_0X 4 (unat (b3 AND 0x0000FFFF))) = 4"
    by (rule fmt_0X_length, simp, rule unat_low_half)+
  ultimately show ?thesis
    by (simp only: uuid_string_def length_append list.size)
qed

lemma uuid_string_set: "set (uuid_string b1 b2 b3 b4) \<subseteq> set ''0123456789ABCDEF-''"
proof -
  define S where "S = set ''0123456789ABCDEF-''"
  have "''0123456789ABCDEF-'' = ''0123456789ABCDEF'' @ ''-''"
    by simp
  then have S: "S = set ''0123456789ABCDEF'' \<union> {CHR ''-''}"
    unfolding S_def by (simp only: set_append) simp
  then have dash: "CHR ''-'' \<in> S"
    by blast
  have part: "set (fmt_0X w n) \<subseteq> S" for w n
    using fmt_0X_set [of w n] unfolding S by blast
  have "set (uuid_string b1 b2 b3 b4) \<subseteq> S"
    by (simp add: uuid_string_def dash part)
  then show ?thesis
    unfolding S_def .
qed

lemma newline_not_hex: "CHR 0x0A \<notin> set ''0123456789ABCDEF-''"
  by simp

lemma getuuid_case_checked:
  assumes "is_mounted" and "fst attr = 0" and "\<not> buf0 (snd attr) < 20"
  shows "getuuid_case is_mounted attr =
    (if uuid_version_ok (OSSwapBigToHostInt32 (buf2 (snd attr))) \<and>
        uuid_variant_ok (OSSwapBigToHostInt32 (buf3 (snd attr)))
     then (FSUR_IO_SUCCESS,
           uuid_string (OSSwapBigToHostInt32 (buf1 (snd attr)))
             (OSSwapBigToHostInt32 (buf2 (snd attr)))
             (OSSwapBigToHostInt32 (buf3 (snd attr)))
             (OSSwapBigToHostInt32 (buf4 (snd attr))))
     else (FSUR_IO_FAIL, []))"
  using assms by (simp add: getuuid_case_def Let_def FSUR_IO_FAIL_def)

text \<open>
  C4: on a mounted volume whose attribute read succeeded with at least five words, the
  UUID is accepted (exit \<open>FSUR_IO_SUCCESS\<close>) if and only if the swapped second word
  satisfies \<open>w2 = (w2 AND 0xFFFF0FFF) OR 0x00003000\<close> and the swapped third word
  satisfies \<open>w3 = (w3 AND 0x3FFFFFFF) OR 0x80000000\<close>; otherwise the exit is
  \<open>FSUR_IO_FAIL\<close> and nothing is written to stdout. The two tests say that the version
  nibble is 3 and that the variant bits are 10.
\<close>

theorem getuuid_validation:
  assumes "is_mounted" and "fst attr = 0" and "\<not> buf0 (snd attr) < 20"
    and "w2 = OSSwapBigToHostInt32 (buf2 (snd attr))"
    and "w3 = OSSwapBigToHostInt32 (buf3 (snd attr))"
  shows "(fst (getuuid_case is_mounted attr) = FSUR_IO_SUCCESS \<longleftrightarrow>
            w2 = (w2 AND 0xFFFF0FFF) OR 0x00003000 \<and> w3 = (w3 AND 0x3FFFFFFF) OR 0x80000000) \<and>
         (\<not> (w2 = (w2 AND 0xFFFF0FFF) OR 0x00003000 \<and> w3 = (w3 AND 0x3FFFFFFF) OR 0x80000000) \<longrightarrow>
            getuuid_case is_mounted attr = (FSUR_IO_FAIL, [])) \<and>
         (w2 = (w2 AND 0xFFFF0FFF) OR 0x00003000 \<longleftrightarrow> w2 AND 0x0000F000 = 0x00003000) \<and>
         (w3 = (w3 AND 0x3FFFFFFF) OR 0x80000000 \<longleftrightarrow> w3 AND 0xC0000000 = 0x80000000)"
proof -
  have ok2: "uuid_version_ok w2 \<longleftrightarrow> w2 = (w2 AND 0xFFFF0FFF) OR 0x00003000"
    by (simp add: uuid_version_ok_def)
  have ok3: "uuid_variant_ok w3 \<longleftrightarrow> w3 = (w3 AND 0x3FFFFFFF) OR 0x80000000"
    by (simp add: uuid_variant_ok_def)
  have "FSUR_IO_FAIL \<noteq> FSUR_IO_SUCCESS"
    by (simp add: FSUR_IO_FAIL_def FSUR_IO_SUCCESS_def)
  then have "(fst (getuuid_case is_mounted attr) = FSUR_IO_SUCCESS \<longleftrightarrow>
      uuid_version_ok w2 \<and> uuid_variant_ok w3) \<and>
    (\<not> (uuid_version_ok w2 \<and> uuid_variant_ok w3) \<longrightarrow>
      getuuid_case is_mounted attr = (FSUR_IO_FAIL, []))"
    unfolding getuuid_case_checked [OF assms(1-3)] assms(4,5) by auto
  moreover note uuid_version_ok_iff [of w2] uuid_variant_ok_iff [of w3]
  ultimately show ?thesis
    unfolding ok2 ok3 by blast
qed

theorem getuuid_validation_witness:
  "getuuid_case True
     (0, \<lparr>buf0 = 20, buf1 = 0xDDCCBBAA, buf2 = 0x44432211, buf3 = 0x78563482, buf4 = 0xEFBEADDE\<rparr>)
     = (FSUR_IO_FAIL, []) \<and>
   OSSwapBigToHostInt32 0x44432211 = 0x11224344 \<and>
   (0x11224344 :: 32 word) AND 0x0000F000 = 0x00004000 \<and>
   fst (getuuid_case True
     (0, \<lparr>buf0 = 20, buf1 = 0xDDCCBBAA, buf2 = 0x44332211, buf3 = 0x78563482, buf4 = 0xEFBEADDE\<rparr>))
     = FSUR_IO_SUCCESS"
  using getuuid_validation [of True
      "(0, \<lparr>buf0 = 20, buf1 = 0xDDCCBBAA, buf2 = 0x44432211, buf3 = 0x78563482, buf4 = 0xEFBEADDE\<rparr>)"
      "0x11224344" "0x82345678"]
    getuuid_validation [of True
      "(0, \<lparr>buf0 = 20, buf1 = 0xDDCCBBAA, buf2 = 0x44332211, buf3 = 0x78563482, buf4 = 0xEFBEADDE\<rparr>)"
      "0x11223344" "0x82345678"]
  by (simp add: OSSwapBigToHostInt32_def)

lemma hex_char_value_digit: "d < 16 \<Longrightarrow> hex_char_value (hex_digit_upper d) = d"
proof -
  assume "d < 16"
  then have "d = 0 \<or> d = 1 \<or> d = 2 \<or> d = 3 \<or> d = 4 \<or> d = 5 \<or> d = 6 \<or> d = 7 \<or>
     d = 8 \<or> d = 9 \<or> d = 10 \<or> d = 11 \<or> d = 12 \<or> d = 13 \<or> d = 14 \<or> d = 15"
    by arith
  then show ?thesis
    by (elim disjE) (simp_all add: hex_digit_upper_def hex_char_value_def)
qed

lemma parse_hex_snoc: "parse_hex (xs @ [c]) = 16 * parse_hex xs + hex_char_value c"
  by (simp add: parse_hex_def)

lemma parse_hex_hex_upper: "parse_hex (hex_upper n) = n"
proof (induction n rule: hex_upper.induct)
  case (1 n)
  show ?case
  proof (cases "n < 16")
    case True
    then show ?thesis
      by (subst hex_upper.simps) (simp add: parse_hex_def hex_char_value_digit)
  next
    case False
    have "n mod 16 < 16" by simp
    with "1.IH" [OF False] False show ?thesis
      by (subst hex_upper.simps) (simp add: parse_hex_snoc hex_char_value_digit)
  qed
qed

lemma parse_hex_zeros: "parse_hex (replicate k (CHR ''0'') @ xs) = parse_hex xs"
proof -
  have "foldl (\<lambda>acc c. 16 * acc + hex_char_value c) 0 (replicate k (CHR ''0'')) = 0"
    by (induction k) (simp_all add: hex_char_value_def)
  then show ?thesis
    by (simp add: parse_hex_def)
qed

lemma parse_hex_fmt_0X: "parse_hex (fmt_0X w n) = n"
  by (simp add: fmt_0X_def parse_hex_zeros parse_hex_hex_upper)

lemma drop_bit_high_mask:
  fixes w m :: "32 word"
  assumes m: "m = push_bit 16 (mask 16)"
  shows "drop_bit 16 (w AND m) = drop_bit 16 w"
proof (rule bit_eqI)
  fix n
  have "bit m (16 + n)" if b: "bit w (16 + n)"
  proof -
    from b have "16 + n < 32"
      using bit_imp_le_length [of w "16 + n"] by simp
    then have "n < 16" by simp
    then show ?thesis
      unfolding m by (simp add: bit_push_bit_iff bit_mask_iff)
  qed
  then show "bit (drop_bit 16 (w AND m)) n \<longleftrightarrow> bit (drop_bit 16 w) n"
    by (auto simp only: bit_drop_bit_eq bit_and_iff o_def)
qed

lemma unat_high_half_div: "unat (drop_bit 16 ((w::32 word) AND 0xFFFF0000)) = unat w div 2 ^ 16"
proof -
  have "(0xFFFF0000 :: 32 word) = push_bit 16 (mask 16)"
    by (simp add: mask_eq_exp_minus_1 push_bit_eq_mult)
  from drop_bit_high_mask [OF this] have "drop_bit 16 (w AND 0xFFFF0000) = drop_bit 16 w" .
  then have "unat (drop_bit 16 (w AND 0xFFFF0000)) = unat (drop_bit 16 w)"
    by (simp only:)
  also have "\<dots> = drop_bit 16 (unat w)"
    by (rule unat_drop_bit_eq)
  also have "\<dots> = unat w div 2 ^ 16"
    by (rule drop_bit_eq_div)
  finally show ?thesis .
qed

lemma unat_low_half_mod: "unat ((w::32 word) AND 0x0000FFFF) = unat w mod 2 ^ 16"
proof -
  have "(0xFFFF :: 32 word) = mask 16"
    by (simp add: mask_eq_exp_minus_1)
  then have "unat (w AND 0xFFFF) = unat (take_bit 16 w)"
    by (simp only: take_bit_eq_mask)
  also have "\<dots> = take_bit 16 (unat w)"
    by (rule unsigned_take_bit_eq)
  also have "\<dots> = unat w mod 2 ^ 16"
    by (rule take_bit_eq_mod)
  finally show ?thesis .
qed

lemma uuid_layout:
  assumes "length a = 8" "length b = 4" "length c = 4" "length d = 4" "length e = 4" "length f = 8"
    and "s = a @ ''-'' @ b @ ''-'' @ c @ ''-'' @ d @ ''-'' @ e @ f"
  shows "take 8 s = a" "s ! 8 = CHR ''-''" "take 4 (drop 9 s) = b" "s ! 13 = CHR ''-''"
    "take 4 (drop 14 s) = c" "s ! 18 = CHR ''-''" "take 4 (drop 19 s) = d" "s ! 23 = CHR ''-''"
    "take 4 (drop 24 s) = e" "drop 28 s = f"
  using assms by (simp_all add: nth_append)

text \<open>
  C5: when the UUID passes validation, the exit is \<open>FSUR_IO_SUCCESS\<close> and stdout receives
  exactly 36 characters with no newline, in the canonical form
  \<^verbatim>\<open>%08X-%04X-%04X-%04X-%04X%08X\<close>: dashes at positions 8, 13, 18 and 23, upper-case
  hexadecimal digits everywhere else, and the six groups of digits denote, in order, the
  first word, the high and the low half of the second word, the high and the low half of
  the third word, and the fourth word.
\<close>

theorem getuuid_success_output:
  assumes "is_mounted" and "fst attr = 0" and "\<not> buf0 (snd attr) < 20"
    and "uuid_version_ok (OSSwapBigToHostInt32 (buf2 (snd attr)))"
    and "uuid_variant_ok (OSSwapBigToHostInt32 (buf3 (snd attr)))"
    and "w1 = OSSwapBigToHostInt32 (buf1 (snd attr))"
    and "w2 = OSSwapBigToHostInt32 (buf2 (snd attr))"
    and "w3 = OSSwapBigToHostInt32 (buf3 (snd attr))"
    and "w4 = OSSwapBigToHostInt32 (buf4 (snd attr))"
    and "out = snd (getuuid_case is_mounted attr)"
  shows "fst (getuuid_case is_mounted attr) = FSUR_IO_SUCCESS \<and>
         length out = 36 \<and>
         out ! 8 = CHR ''-'' \<and> out ! 13 = CHR ''-'' \<and> out ! 18 = CHR ''-'' \<and>
         out ! 23 = CHR ''-'' \<and>
         parse_hex (take 8 out) = unat w1 \<and>
         parse_hex (take 4 (drop 9 out)) = unat w2 div 2 ^ 16 \<and>
         parse_hex (take 4 (drop 14 out)) = unat w2 mod 2 ^ 16 \<and>
         parse_hex (take 4 (drop 19 out)) = unat w3 div 2 ^ 16 \<and>
         parse_hex (take 4 (drop 24 out)) = unat w3 mod 2 ^ 16 \<and>
         parse_hex (drop 28 out) = unat w4 \<and>
         set (take 8 out) \<subseteq> set ''0123456789ABCDEF'' \<and>
         set (take 4 (drop 9 out)) \<subseteq> set ''0123456789ABCDEF'' \<and>
         set (take 4 (drop 14 out)) \<subseteq> set ''0123456789ABCDEF'' \<and>
         set (take 4 (drop 19 out)) \<subseteq> set ''0123456789ABCDEF'' \<and>
         set (take 4 (drop 24 out)) \<subseteq> set ''0123456789ABCDEF'' \<and>
         set (drop 28 out) \<subseteq> set ''0123456789ABCDEF'' \<and>
         CHR 0x0A \<notin> set out"
proof -
  let ?a = "fmt_0X 8 (unat w1)"
  let ?b = "fmt_0X 4 (unat (drop_bit 16 (w2 AND 0xFFFF0000)))"
  let ?c = "fmt_0X 4 (unat (w2 AND 0x0000FFFF))"
  let ?d = "fmt_0X 4 (unat (drop_bit 16 (w3 AND 0xFFFF0000)))"
  let ?e = "fmt_0X 4 (unat (w3 AND 0x0000FFFF))"
  let ?f = "fmt_0X 8 (unat w4)"
  have eq: "getuuid_case is_mounted attr = (FSUR_IO_SUCCESS, uuid_string w1 w2 w3 w4)"
    unfolding getuuid_case_checked [OF assms(1-3)] assms(6-9) using assms(4,5) by simp
  then have out: "out = ?a @ ''-'' @ ?b @ ''-'' @ ?c @ ''-'' @ ?d @ ''-'' @ ?e @ ?f"
    by (simp only: assms(10) snd_conv uuid_string_def)
  have la: "length ?a = 8" and lf: "length ?f = 8"
    by (rule fmt_0X_length, simp, rule unat_word32)+
  have lb: "length ?b = 4" and ld: "length ?d = 4"
    by (rule fmt_0X_length, simp, rule unat_high_half)+
  have lc: "length ?c = 4" and le: "length ?e = 4"
    by (rule fmt_0X_length, simp, rule unat_low_half)+
  note lay = uuid_layout [OF la lb lc ld le lf out]
  have "set out \<subseteq> set ''0123456789ABCDEF-''"
    unfolding assms(10) eq snd_conv by (rule uuid_string_set)
  with newline_not_hex have nl: "CHR 0x0A \<notin> set out"
    by blast
  have len: "length out = 36"
    unfolding assms(10) eq snd_conv by (rule uuid_string_length)
  have "fst (getuuid_case is_mounted attr) = FSUR_IO_SUCCESS"
    unfolding eq by simp
  moreover have "parse_hex (take 8 out) = unat w1" "parse_hex (drop 28 out) = unat w4"
    unfolding lay by (rule parse_hex_fmt_0X)+
  moreover have "parse_hex (take 4 (drop 9 out)) = unat w2 div 2 ^ 16"
    "parse_hex (take 4 (drop 19 out)) = unat w3 div 2 ^ 16"
    unfolding lay parse_hex_fmt_0X by (rule unat_high_half_div)+
  moreover have "parse_hex (take 4 (drop 14 out)) = unat w2 mod 2 ^ 16"
    "parse_hex (take 4 (drop 24 out)) = unat w3 mod 2 ^ 16"
    unfolding lay parse_hex_fmt_0X by (rule unat_low_half_mod)+
  moreover have "set (take 8 out) \<subseteq> set ''0123456789ABCDEF''"
    "set (take 4 (drop 9 out)) \<subseteq> set ''0123456789ABCDEF''"
    "set (take 4 (drop 14 out)) \<subseteq> set ''0123456789ABCDEF''"
    "set (take 4 (drop 19 out)) \<subseteq> set ''0123456789ABCDEF''"
    "set (take 4 (drop 24 out)) \<subseteq> set ''0123456789ABCDEF''"
    "set (drop 28 out) \<subseteq> set ''0123456789ABCDEF''"
    unfolding lay by (rule fmt_0X_set)+
  moreover note len nl lay(2,4,6,8)
  ultimately show ?thesis
    by (intro conjI)
qed

theorem getuuid_success_output_witness:
  "getuuid_case True
     (0, \<lparr>buf0 = 20, buf1 = 0xDDCCBBAA, buf2 = 0x44332211, buf3 = 0x78563482, buf4 = 0xEFBEADDE\<rparr>)
     = (FSUR_IO_SUCCESS, ''AABBCCDD-1122-3344-8234-5678DEADBEEF'') \<and>
   length ''AABBCCDD-1122-3344-8234-5678DEADBEEF'' = 36 \<and>
   parse_hex ''AABBCCDD'' = unat (0xAABBCCDD :: 32 word) \<and>
   parse_hex ''1122'' = unat (0x11223344 :: 32 word) div 2 ^ 16 \<and>
   parse_hex ''3344'' = unat (0x11223344 :: 32 word) mod 2 ^ 16 \<and>
   parse_hex ''DEADBEEF'' = unat (0xDEADBEEF :: 32 word)"
proof -
  let ?attr = "(0 :: int, \<lparr>buf0 = 20, buf1 = 0xDDCCBBAA, buf2 = 0x44332211, buf3 = 0x78563482,
    buf4 = 0xEFBEADDE\<rparr>)"
  let ?out = "''AABBCCDD-1122-3344-8234-5678DEADBEEF''"
  have sw: "OSSwapBigToHostInt32 0xDDCCBBAA = 0xAABBCCDD"
    "OSSwapBigToHostInt32 0x44332211 = 0x11223344"
    "OSSwapBigToHostInt32 0x78563482 = 0x82345678"
    "OSSwapBigToHostInt32 0xEFBEADDE = 0xDEADBEEF"
    by (simp_all add: OSSwapBigToHostInt32_def)
  have ok: "uuid_version_ok 0x11223344" "uuid_variant_ok 0x82345678"
    by (simp_all add: uuid_version_ok_def uuid_variant_ok_def)
  have str: "uuid_string 0xAABBCCDD 0x11223344 0x82345678 0xDEADBEEF = ?out"
    by (simp add: uuid_string_def fmt_0X_def hex_upper.simps hex_digit_upper_def)
  have eq: "getuuid_case True ?attr = (FSUR_IO_SUCCESS, ?out)"
    by (simp add: getuuid_case_checked sw ok str)
  have p: "fst ?attr = 0" "\<not> buf0 (snd ?attr) < 20"
    "uuid_version_ok (OSSwapBigToHostInt32 (buf2 (snd ?attr)))"
    "uuid_variant_ok (OSSwapBigToHostInt32 (buf3 (snd ?attr)))"
    "0xAABBCCDD = OSSwapBigToHostInt32 (buf1 (snd ?attr))"
    "0x11223344 = OSSwapBigToHostInt32 (buf2 (snd ?attr))"
    "0x82345678 = OSSwapBigToHostInt32 (buf3 (snd ?attr))"
    "0xDEADBEEF = OSSwapBigToHostInt32 (buf4 (snd ?attr))"
    "?out = snd (getuuid_case True ?attr)"
    by (simp_all add: sw ok eq)
  from getuuid_success_output [OF TrueI p]
  have "parse_hex (take 8 ?out) = unat (0xAABBCCDD :: 32 word) \<and>
    parse_hex (take 4 (drop 9 ?out)) = unat (0x11223344 :: 32 word) div 2 ^ 16 \<and>
    parse_hex (take 4 (drop 14 ?out)) = unat (0x11223344 :: 32 word) mod 2 ^ 16 \<and>
    parse_hex (drop 28 ?out) = unat (0xDEADBEEF :: 32 word)"
    by blast
  then have "parse_hex ''AABBCCDD'' = unat (0xAABBCCDD :: 32 word) \<and>
    parse_hex ''1122'' = unat (0x11223344 :: 32 word) div 2 ^ 16 \<and>
    parse_hex ''3344'' = unat (0x11223344 :: 32 word) mod 2 ^ 16 \<and>
    parse_hex ''DEADBEEF'' = unat (0xDEADBEEF :: 32 word)"
    by simp
  moreover have "length ?out = 36"
    by simp
  ultimately show ?thesis
    using eq by blast
qed

subsection \<open>PROBE\<close>

lemma replicate_1020: "x # replicate 1019 x = replicate 1020 x"
proof -
  have "replicate (Suc 1019) x = replicate 1020 x"
    by simp
  then show ?thesis
    by (simp only: replicate.simps)
qed

lemma snprintf_volname_length: "snprintf_volname n src = Some v \<Longrightarrow> length v = MAXPATHLEN"
  by (auto simp: snprintf_volname_def Let_def strlen_def split: if_splits)

lemma probe_case_stdout_length:
  "probe_case is_mounted attr = Inr (FSUR_RECOGNIZED, out) \<Longrightarrow> length out = MAXPATHLEN"
  by (auto simp: probe_case_def Let_def FSUR_RECOGNIZED_def FSUR_UNRECOGNIZED_def
      snprintf_volname_length split: if_splits option.splits)

text \<open>
  C3, as the code has it: on a mounted volume whose attribute read succeeded, the buffer is
  rejected (exit \<open>FSUR_UNRECOGNIZED\<close>, nothing written) exactly when its length field is
  strictly smaller than \<^verbatim>\<open>offsetof(struct attrNameBuf, name)\<close> or strictly greater than
  \<^verbatim>\<open>sizeof(nameBuf)\<close>; a length equal to either bound, or between them, passes the two
  checks and the volume name is copied.
\<close>

theorem probe_length_bounds:
  assumes "is_mounted" and "fst attr = 0"
  shows "(probe_case is_mounted attr = Inr (FSUR_UNRECOGNIZED, []) \<longleftrightarrow>
            unat (length_nb (snd attr)) < offsetof_name \<or>
            sizeof_attrNameBuf < unat (length_nb (snd attr))) \<and>
         (offsetof_name \<le> unat (length_nb (snd attr)) \<and>
          unat (length_nb (snd attr)) \<le> sizeof_attrNameBuf \<longrightarrow>
            (\<exists>out. probe_case is_mounted attr = Inr (FSUR_RECOGNIZED, out)) \<or>
            (\<exists>f. probe_case is_mounted attr = Inl f))"
  using assms
  by (auto simp: probe_case_def Let_def FSUR_RECOGNIZED_def FSUR_UNRECOGNIZED_def
      split: option.splits)

theorem probe_length_bounds_witness:
  "probe_case True (0, \<lparr>length_nb = 11, nameRef = \<lparr>attr_dataoffset = 8, attr_length = 5\<rparr>,
      name_nb = ''Data''\<rparr>) = Inr (FSUR_UNRECOGNIZED, []) \<and>
   probe_case True (0, \<lparr>length_nb = 1037, nameRef = \<lparr>attr_dataoffset = 8, attr_length = 5\<rparr>,
      name_nb = ''Data''\<rparr>) = Inr (FSUR_UNRECOGNIZED, []) \<and>
   probe_case True (0, \<lparr>length_nb = 20, nameRef = \<lparr>attr_dataoffset = 8, attr_length = 5\<rparr>,
      name_nb = ''Data''\<rparr>) \<noteq> Inr (FSUR_UNRECOGNIZED, [])"
  using probe_length_bounds [of True "(0, \<lparr>length_nb = 11,
      nameRef = \<lparr>attr_dataoffset = 8, attr_length = 5\<rparr>, name_nb = ''Data''\<rparr>)"]
    probe_length_bounds [of True "(0, \<lparr>length_nb = 1037,
      nameRef = \<lparr>attr_dataoffset = 8, attr_length = 5\<rparr>, name_nb = ''Data''\<rparr>)"]
    probe_length_bounds [of True "(0, \<lparr>length_nb = 20,
      nameRef = \<lparr>attr_dataoffset = 8, attr_length = 5\<rparr>, name_nb = ''Data''\<rparr>)"]
  by (simp add: offsetof_name_def sizeof_attrNameBuf_def MAXPATHLEN_def)

text \<open>
  C3 as stated fails: a length field equal to \<^verbatim>\<open>offsetof(name)\<close> (12) is accepted, and
  so is one equal to the size of the receive buffer (1036).
\<close>

theorem probe_length_counterexample:
  "probe_case True (0, \<lparr>length_nb = 12, nameRef = \<lparr>attr_dataoffset = 0, attr_length = 0\<rparr>,
      name_nb = []\<rparr>) = Inr (FSUR_RECOGNIZED, replicate 1024 NUL) \<and>
   unat (12 :: 32 word) = offsetof_name \<and>
   probe_case True (0, \<lparr>length_nb = 1036, nameRef = \<lparr>attr_dataoffset = 0, attr_length = 0\<rparr>,
      name_nb = []\<rparr>) = Inr (FSUR_RECOGNIZED, replicate 1024 NUL) \<and>
   unat (1036 :: 32 word) = sizeof_attrNameBuf"
  by (simp add: probe_case_def offsetof_name_def sizeof_attrNameBuf_def MAXPATHLEN_def
     attrNameBuf_bytes_def le32_def name_array_def cstring_from_def snprintf_volname_def
     strlen_def NUL_def)

text \<open>
  C7: probing a mounted volume named \<^verbatim>\<open>Data\<close> should write the four bytes \<^verbatim>\<open>Data\<close> to
  stdout. The code exits \<open>FSUR_RECOGNIZED\<close> but writes the whole \<^verbatim>\<open>volname\<close> array:
  the name followed by 1020 zero bytes.
\<close>

lemma example_mount_scan:
  "mount_scan (env_getmntinfo example_main_env) ''/dev/disk3s1'' = (1, True)"
  by (simp add: mount_scan_def example_main_env_def scan_loop.simps strlen_def)

lemma example_probe_case:
  "probe_case True (0, \<lparr>length_nb = 20, nameRef = \<lparr>attr_dataoffset = 8, attr_length = 5\<rparr>,
      name_nb = ''Data''\<rparr>) = Inr (FSUR_RECOGNIZED, ''Data'' @ replicate 1020 NUL)"
  by (simp add: probe_case_def offsetof_name_def sizeof_attrNameBuf_def MAXPATHLEN_def
     attrNameBuf_bytes_def le32_def name_array_def cstring_from_def snprintf_volname_def
     strlen_def replicate_1020 [symmetric] NUL_def)

theorem probe_writes_whole_volname:
  "main example_main_env [''zfs.util'', ''-p'', ''disk3s1''] =
     Inr (FSUR_RECOGNIZED, ''Data'' @ replicate 1020 NUL) \<and>
   probe_case True (0, \<lparr>length_nb = 20, nameRef = \<lparr>attr_dataoffset = 8, attr_length = 5\<rparr>,
      name_nb = ''Data''\<rparr>) = Inr (FSUR_RECOGNIZED, ''Data'' @ replicate 1020 NUL) \<and>
   length (''Data'' @ replicate 1020 NUL) = 1024 \<and>
   ''Data'' @ replicate 1020 NUL \<noteq> ''Data''"
proof -
  have "normalize_devname ''disk3s1'' = ''disk3s1''"
    by (simp add: normalize_devname_def after_last_slash_def cstr_at_def)
  then have "main example_main_env [''zfs.util'', ''-p'', ''disk3s1''] =
      probe_case True (0, \<lparr>length_nb = 20, nameRef = \<lparr>attr_dataoffset = 8, attr_length = 5\<rparr>,
        name_nb = ''Data''\<rparr>)"
    using example_mount_scan
    by (simp add: main_def Let_def cstr_at_def blockdevice_of_def snprintf_trunc_def
        MAXPATHLEN_def FSUC_PROBE_def)
      (simp add: example_main_env_def)
  with example_probe_case show ?thesis
    by simp
qed

theorem probe_writes_whole_volname_witness:
  "main example_main_env [''zfs.util'', ''-p'', ''disk3s1''] \<noteq> Inr (FSUR_RECOGNIZED, ''Data'') \<and>
   (\<exists>out. main example_main_env [''zfs.util'', ''-p'', ''disk3s1''] = Inr (FSUR_RECOGNIZED, out) \<and>
      length out = 1024)"
  using probe_writes_whole_volname by simp

subsection \<open>The cache-import path\<close>

lemmas zpool_keys = ZPOOL_CONFIG_POOL_NAME_def ZPOOL_CONFIG_POOL_STATE_def
  ZPOOL_CONFIG_VERSION_def ZPOOL_CONFIG_POOL_GUID_def ZPOOL_CONFIG_HOSTID_def
  ZPOOL_CONFIG_HOSTNAME_def ZPOOL_CONFIG_TIMESTAMP_def ZPOOL_REWIND_POLICY_def
  ZPOOL_REWIND_REQUEST_def ZPOOL_REWIND_REQUEST_TXG_def

lemmas zfs_constants = POOL_STATE_EXPORTED_def POOL_STATE_DESTROYED_def POOL_STATE_UNAVAIL_def
  ZFS_IMPORT_NORMAL_def ZFS_IMPORT_ANY_HOST_def ZFS_IMPORT_ONLY_def ZPOOL_NO_REWIND_def

lemma hostid_check_no_calls:
  "hostid_check env config name = Some (oc, evs) \<Longrightarrow>
     import_props_calls evs = [] \<and> import_attempts evs = []"
  by (auto simp: hostid_check_def Let_def split: option.splits if_splits)

lemma import_and_enable_no_attempts:
  "import_and_enable env config name0 newname mntopts props flags = (oc, evs) \<Longrightarrow>
     import_attempts evs = []"
  by (auto simp: import_and_enable_def Let_def split: option.splits if_splits)

lemma do_import_no_attempts:
  "do_import env config newname mntopts props flags = (oc, evs) \<Longrightarrow> import_attempts evs = []"
  by (auto simp: do_import_def split: option.splits if_splits
      dest: hostid_check_no_calls import_and_enable_no_attempts)

lemma zpool_import_by_guid_no_attempts:
  "zpool_import_by_guid env g = (oc, evs, res) \<Longrightarrow> import_attempts evs = []"
  by (auto simp: zpool_import_by_guid_def Let_def
      split: option.splits prod.splits outcome.splits if_splits
      dest: do_import_no_attempts)

lemma import_attempts_append:
  "import_attempts (xs @ ys) = import_attempts xs @ import_attempts ys"
  by (induction xs rule: import_attempts.induct) simp_all

lemma manifest_guids_simps:
  "manifest_guids [] = []"
  "manifest_guids (e # rest) =
     (case qualifying_guid e of None \<Rightarrow> manifest_guids rest | Some g \<Rightarrow> g # manifest_guids rest)"
  by (simp_all add: manifest_guids_def map_filter_simps split: option.splits)

lemma cachefile_walk_skip:
  assumes "qualifying_guid e = None"
  shows "fst (cachefile_walk envs k (e # rest)) = fst (cachefile_walk envs k rest) \<and>
         (snd (cachefile_walk envs k (e # rest)) = snd (cachefile_walk envs k rest) \<or>
          snd (cachefile_walk envs k (e # rest)) =
            Printf (MsgCachefileHasPool (fst e)) # snd (cachefile_walk envs k rest))"
proof (cases e)
  case (Pair nm v)
  with assms show ?thesis
    by (cases v) simp_all
qed

lemma cachefile_walk_attempt:
  assumes "qualifying_guid e = Some guid"
    and "zpool_import_by_guid (envs k) guid = (Returned rc, evs, res)"
  shows "fst (cachefile_walk envs k (e # rest)) = fst (cachefile_walk envs (Suc k) rest) \<and>
         snd (cachefile_walk envs k (e # rest)) =
           [Printf (MsgCachefileHasPool (fst e)), Printf (MsgCachefileHasPoolGuid (fst e) guid),
            Call_zpool_import_by_guid guid] @ evs @ [Printf (MsgImportError rc)] @
           snd (cachefile_walk envs (Suc k) rest)"
proof (cases e)
  case (Pair nm v)
  with assms show ?thesis
    by (cases v) simp_all
qed

lemma cachefile_walk_abort:
  assumes "qualifying_guid e = Some guid"
    and "zpool_import_by_guid (envs k) guid = (VerifyFailed, evs, res)"
  shows "\<not> fst (cachefile_walk envs k (e # rest))"
proof (cases e)
  case (Pair nm v)
  with assms show ?thesis
    by (cases v) simp_all
qed

lemma zpool_import_by_guid_cleanup_at_error_label:
  assumes "zpool_import_by_guid env g = (Returned r, evs, res)"
    and "env_priv_ineffect env" and "fst (env_search_import env g) \<noteq> None"
  shows "\<not> g_zfs_live res \<and> \<not> policy_live res \<and> \<not> pools_live res"
  using assms
  by (auto simp: zpool_import_by_guid_def Let_def error_label_def
      split: option.splits prod.splits outcome.splits if_splits)

lemma zpool_import_by_guid_early_return:
  assumes "env_libzfs_init env" and "env_nvlist_alloc env = 0" and "env_add_txg env = 0"
    and "env_add_rewind env = 0"
    and "\<not> env_priv_ineffect env \<or> fst (env_search_import env g) = None"
  shows "fst (zpool_import_by_guid env g) = Returned 1 \<and>
         g_zfs_live (snd (snd (zpool_import_by_guid env g)))"
  using assms
  by (auto simp: zpool_import_by_guid_def Let_def)

text \<open>
  C2: every return of \<^verbatim>\<open>zpool_import_by_guid\<close> should leave the library handle
  finalized. On the permission-denied return, and on the return for an empty candidate
  set, the code frees the policy and returns 1 without \<^verbatim>\<open>libzfs_fini\<close>: the handle
  stays live.
\<close>

theorem zpool_import_by_guid_handle_not_finalized:
  "zpool_import_by_guid (example_env\<lparr>env_priv_ineffect := False\<rparr>) 0x1111 =
     (Returned 1, [Printf MsgPermissionDenied],
      \<lparr>g_zfs_live = True, policy_live = False, pools_live = False\<rparr>) \<and>
   zpool_import_by_guid example_env 0x1111 =
     (Returned 1, [Printf (MsgNoSuchPool 0x1111)],
      \<lparr>g_zfs_live = True, policy_live = False, pools_live = False\<rparr>)"
  by (simp add: zpool_import_by_guid_def example_env_def)

theorem zpool_import_by_guid_handle_not_finalized_witness:
  "g_zfs_live (snd (snd (zpool_import_by_guid (example_env\<lparr>env_priv_ineffect := False\<rparr>) 0x1111))) \<and>
   g_zfs_live (snd (snd (zpool_import_by_guid example_env 0x1111)))"
  using zpool_import_by_guid_handle_not_finalized by simp

lemma import_and_enable_calls:
  "import_props_calls (snd (import_and_enable env config name0 newname mntopts props flags)) \<noteq> [] \<and>
   fst (import_and_enable env config name0 newname mntopts props flags) \<noteq> VerifyFailed"
  by (simp add: import_and_enable_def Let_def split: option.splits)






lemma cachefile_walk_attempts_prefix:
  "prefix (import_attempts (snd (cachefile_walk envs k nvl))) (manifest_guids nvl)"
proof (induction nvl arbitrary: k)
  case Nil
  then show ?case by (simp add: manifest_guids_simps)
next
  case (Cons e rest)
  show ?case
  proof (cases "qualifying_guid e")
    case None
    from Cons.IH [of k] cachefile_walk_skip [where envs = envs and k = k and rest = rest, OF None]
      None
    show ?thesis
      by (auto simp: manifest_guids_simps)
  next
    case (Some guid)
    obtain nm child where e: "e = (nm, NvNvlist child)"
      and g: "nvlist_lookup_uint64 child ZPOOL_CONFIG_POOL_GUID = Some guid"
      using Some by (cases e rule: qualifying_guid.cases) auto
    obtain oc evs res where r: "zpool_import_by_guid (envs k) guid = (oc, evs, res)"
      by (cases "zpool_import_by_guid (envs k) guid") auto
    from zpool_import_by_guid_no_attempts [OF r] have na: "import_attempts evs = []" .
    show ?thesis
    proof (cases oc)
      case VerifyFailed
      with e g r na show ?thesis
        by (simp add: manifest_guids_simps import_attempts_append)
    next
      case (Returned rc)
      with e g r na Cons.IH [of "Suc k"] show ?thesis
        by (simp add: manifest_guids_simps import_attempts_append)
    qed
  qed
qed

lemma cachefile_walk_complete:
  "fst (cachefile_walk envs k nvl) \<Longrightarrow>
     import_attempts (snd (cachefile_walk envs k nvl)) = manifest_guids nvl"
proof (induction nvl arbitrary: k)
  case Nil
  then show ?case by (simp add: manifest_guids_simps)
next
  case (Cons e rest)
  show ?case
  proof (cases "qualifying_guid e")
    case None
    from cachefile_walk_skip [where envs = envs and k = k and rest = rest, OF None] Cons.prems
    have "fst (cachefile_walk envs k rest)" by simp
    from Cons.IH [OF this] cachefile_walk_skip [where envs = envs and k = k and rest = rest, OF None] None
    show ?thesis
      by (auto simp: manifest_guids_simps)
  next
    case (Some guid)
    obtain oc evs res where r: "zpool_import_by_guid (envs k) guid = (oc, evs, res)"
      by (cases "zpool_import_by_guid (envs k) guid") auto
    from zpool_import_by_guid_no_attempts [OF r] have na: "import_attempts evs = []" .
    show ?thesis
    proof (cases oc)
      case VerifyFailed
      with cachefile_walk_abort [where envs = envs and k = k and rest = rest, OF Some] r Cons.prems
      show ?thesis by simp
    next
      case (Returned rc)
      with r have r': "zpool_import_by_guid (envs k) guid = (Returned rc, evs, res)"
        by simp
      note step = cachefile_walk_attempt [where envs = envs and k = k and rest = rest, OF Some r']
      with Cons.prems have "fst (cachefile_walk envs (Suc k) rest)"
        by simp
      from Cons.IH [OF this] step Some na show ?thesis
        by (simp add: manifest_guids_simps import_attempts_append)
    qed
  qed
qed

lemma zpool_read_cachefile_empty_file:
  assumes "0 \<le> env_open env" and "snd (env_fstat env) = 0"
  shows "zpool_read_cachefile env = (True, [Printf MsgReadingCachefile, Close_fd])"
  using assms by (simp add: zpool_read_cachefile_def)

lemma zpool_read_cachefile_attempts:
  assumes "0 \<le> env_open env" and "env_fstat env = (0, sz)" and "sz \<noteq> 0"
    and "env_kmem_alloc env" and "env_read env = sz"
    and "env_nvlist_unpack env = Some nvl"
    and "fst (zpool_read_cachefile env)"
  shows "import_attempts (snd (zpool_read_cachefile env)) = manifest_guids nvl"
proof -
  from assms have "fst (cachefile_walk (env_import env) 0 nvl)"
    by (simp add: zpool_read_cachefile_def split: if_splits)
  with assms cachefile_walk_complete [of "env_import env" 0 nvl] show ?thesis
    by (simp add: zpool_read_cachefile_def import_attempts_append)
qed

lemma do_import_returns:
  "config_asserted_keys c \<Longrightarrow> fst (do_import env c newname mntopts props flags) \<noteq> VerifyFailed"
  using import_and_enable_calls [of env c _ newname mntopts props flags]
  by (auto simp: config_asserted_keys_def do_import_def hostid_check_def Let_def
      split: option.splits)

lemma find_candidate_returns:
  assumes "list_all (candidate_ok env) pools"
    and "found = None \<or> (\<exists>c. found = Some c \<and> config_asserted_keys c)"
  shows "\<exists>f. find_candidate env g pools found = Some f \<and>
           (f = None \<or> (\<exists>c. f = Some c \<and> config_asserted_keys c))"
  using assms
proof (induction pools arbitrary: found)
  case Nil
  then show ?case by simp
next
  case (Cons elem rest)
  from Cons.prems(1) have ok: "candidate_ok env elem" and rest: "list_all (candidate_ok env) rest"
    by simp_all
  from ok obtain config pool_state where c: "nvpair_value_nvlist elem = Some config"
    and st: "nvlist_lookup_uint64 config ZPOOL_CONFIG_POOL_STATE = Some pool_state"
    by (auto simp: candidate_ok_def split: option.splits)
  show ?case
  proof (cases "pool_state = word_of_int POOL_STATE_DESTROYED")
    case True
    with c st Cons.IH [OF rest Cons.prems(2)] show ?thesis
      by simp
  next
    case False
    let ?c = "nvlist_add_nvlist config ZPOOL_REWIND_POLICY rewind_policy_nvlist"
    from ok c st False have add: "env_config_add_policy env config = 0"
      and keys: "config_asserted_keys ?c"
      and "nvlist_lookup_uint64 ?c ZPOOL_CONFIG_POOL_GUID \<noteq> None"
      by (auto simp: candidate_ok_def)
    then obtain guid where guid: "nvlist_lookup_uint64 ?c ZPOOL_CONFIG_POOL_GUID = Some guid"
      by auto
    have "(if guid = g then Some ?c else found) = None \<or>
      (\<exists>c. (if guid = g then Some ?c else found) = Some c \<and> config_asserted_keys c)"
      using keys Cons.prems(2) by auto
    from Cons.IH [OF rest this] c st False add guid show ?thesis
      by (simp add: Let_def)
  qed
qed

lemma zpool_import_by_guid_returns:
  assumes "candidates_ok env g"
  shows "fst (zpool_import_by_guid env g) \<noteq> VerifyFailed"
proof (cases "fst (env_search_import env g)")
  case None
  then show ?thesis
    by (simp add: zpool_import_by_guid_def Let_def)
next
  case (Some pools)
  with assms have "list_all (candidate_ok env) pools"
    by (simp add: candidates_ok_def)
  from find_candidate_returns [OF this, of None g] obtain f
    where f: "find_candidate env g pools None = Some f"
      and k: "f = None \<or> (\<exists>c. f = Some c \<and> config_asserted_keys c)"
    by auto
  show ?thesis
  proof (cases f)
    case None
    with Some f show ?thesis
      by (simp add: zpool_import_by_guid_def Let_def)
  next
    case (Some c)
    with k have "config_asserted_keys c" by simp
    from do_import_returns [OF this, of env None None None ZFS_IMPORT_NORMAL]
      \<open>fst (env_search_import env g) = Some pools\<close> f Some
    show ?thesis
      by (auto simp: zpool_import_by_guid_def Let_def split: prod.splits outcome.splits)
  qed
qed

lemma imports_return_if_candidates_ok:
  "(\<forall>j g. candidates_ok (envs j) g) \<Longrightarrow> imports_return envs k gs"
  by (induction gs arbitrary: k) (simp_all add: zpool_import_by_guid_returns)

lemma attempts_until_abort_all:
  "imports_return envs k gs \<Longrightarrow> attempts_until_abort envs k gs = gs"
  by (induction gs arbitrary: k) simp_all

lemma cachefile_walk_attempts:
  "import_attempts (snd (cachefile_walk envs k nvl)) =
     attempts_until_abort envs k (manifest_guids nvl) \<and>
   (fst (cachefile_walk envs k nvl) \<longleftrightarrow> imports_return envs k (manifest_guids nvl))"
proof (induction nvl arbitrary: k)
  case Nil
  then show ?case by (simp add: manifest_guids_simps)
next
  case (Cons e rest)
  show ?case
  proof (cases "qualifying_guid e")
    case None
    from Cons.IH [of k] cachefile_walk_skip [where envs = envs and k = k and rest = rest, OF None]
      None
    show ?thesis
      by (auto simp: manifest_guids_simps)
  next
    case (Some guid)
    obtain oc evs res where r: "zpool_import_by_guid (envs k) guid = (oc, evs, res)"
      by (cases "zpool_import_by_guid (envs k) guid") auto
    from zpool_import_by_guid_no_attempts [OF r] have na: "import_attempts evs = []" .
    show ?thesis
    proof (cases oc)
      case VerifyFailed
      obtain nm child where e: "e = (nm, NvNvlist child)"
        and g: "nvlist_lookup_uint64 child ZPOOL_CONFIG_POOL_GUID = Some guid"
        using Some by (cases e rule: qualifying_guid.cases) auto
      from e g r na VerifyFailed Some show ?thesis
        by (simp add: manifest_guids_simps import_attempts_append)
    next
      case (Returned rc)
      with r have r': "zpool_import_by_guid (envs k) guid = (Returned rc, evs, res)"
        by simp
      note step = cachefile_walk_attempt [where envs = envs and k = k and rest = rest, OF Some r']
      from Cons.IH [of "Suc k"] step Some na r' show ?thesis
        by (simp add: manifest_guids_simps import_attempts_append)
    qed
  qed
qed

text \<open>
  C9, as the code has it: the calls of \<^verbatim>\<open>zpool_import_by_guid\<close> that the walk makes are the
  guids of the qualifying manifest entries in the manifest's order, up to and including
  the first one whose import ends the process by a failed \<^verbatim>\<open>verify\<close>. They are all
  qualifying guids exactly when no import does so, which holds whenever the collaborators'
  answers satisfy what the \<^verbatim>\<open>verify\<close> calls assert. An import that returns, with 0 or
  with a failure, never stops the walk: the return value is logged and the next entry is
  walked.
\<close>

theorem cachefile_walk_order:
  "import_attempts (snd (cachefile_walk envs k nvl)) =
     attempts_until_abort envs k (manifest_guids nvl) \<and>
   prefix (import_attempts (snd (cachefile_walk envs k nvl))) (manifest_guids nvl) \<and>
   (fst (cachefile_walk envs k nvl) \<longleftrightarrow> imports_return envs k (manifest_guids nvl)) \<and>
   (imports_return envs k (manifest_guids nvl) \<longrightarrow>
      import_attempts (snd (cachefile_walk envs k nvl)) = manifest_guids nvl) \<and>
   ((\<forall>j g. candidates_ok (envs j) g) \<longrightarrow>
      import_attempts (snd (cachefile_walk envs k nvl)) = manifest_guids nvl) \<and>
   (\<forall>e rest guid rc evs res.
      nvl = e # rest \<and> qualifying_guid e = Some guid \<and>
      zpool_import_by_guid (envs k) guid = (Returned rc, evs, res) \<longrightarrow>
      fst (cachefile_walk envs k nvl) = fst (cachefile_walk envs (Suc k) rest) \<and>
      snd (cachefile_walk envs k nvl) =
        [Printf (MsgCachefileHasPool (fst e)), Printf (MsgCachefileHasPoolGuid (fst e) guid),
         Call_zpool_import_by_guid guid] @ evs @ [Printf (MsgImportError rc)] @
        snd (cachefile_walk envs (Suc k) rest))"
proof -
  note a = cachefile_walk_attempts [of envs k nvl]
  have "imports_return envs k (manifest_guids nvl) \<longrightarrow>
      import_attempts (snd (cachefile_walk envs k nvl)) = manifest_guids nvl"
    using a attempts_until_abort_all [of envs k "manifest_guids nvl"] by simp
  moreover from this have "(\<forall>j g. candidates_ok (envs j) g) \<longrightarrow>
      import_attempts (snd (cachefile_walk envs k nvl)) = manifest_guids nvl"
    using imports_return_if_candidates_ok [of envs k "manifest_guids nvl"] by blast
  moreover note a cachefile_walk_attempts_prefix [of envs k nvl]
    cachefile_walk_attempt [where envs = envs and k = k]
  ultimately show ?thesis
    by blast
qed


theorem cachefile_walk_order_witness:
  "(\<forall>j g. candidates_ok (example_envs j) g) \<and>
   fst (cachefile_walk example_envs 0 example_manifest) \<and>
   fst (zpool_import_by_guid (example_envs 0) 0x1111) = Returned 1 \<and>
   fst (zpool_import_by_guid (example_envs 1) 0x2222) = Returned 0 \<and>
   import_attempts (snd (cachefile_walk example_envs 0 example_manifest)) = [0x1111, 0x2222] \<and>
   manifest_guids example_manifest = [0x1111, 0x2222]"
proof -
  have ok: "\<forall>j g. candidates_ok (example_envs j) g"
    by (simp add: candidates_ok_def candidate_ok_def config_asserted_keys_def example_envs_def
        example_env_def example_config_def nvlist_add_nvlist_def zpool_keys zfs_constants)
  have 1: "fst (zpool_import_by_guid (example_envs 0) 0x1111) = Returned 1"
    by (simp add: zpool_import_by_guid_def example_envs_def example_env_def)
  have 2: "fst (zpool_import_by_guid (example_envs 1) 0x2222) = Returned 0"
    by (simp add: zpool_import_by_guid_def example_envs_def example_env_def example_config_def
        do_import_def hostid_check_def import_and_enable_def nvlist_add_nvlist_def
        zpool_keys zfs_constants Let_def)
  have 4: "manifest_guids example_manifest = [0x1111, 0x2222]"
    by (simp add: example_manifest_def manifest_guids_simps zpool_keys)
  note t = cachefile_walk_order [of example_envs 0 example_manifest]
  from t ok have 5: "import_attempts (snd (cachefile_walk example_envs 0 example_manifest)) =
      manifest_guids example_manifest"
    by blast
  from t ok imports_return_if_candidates_ok [of example_envs 0 "manifest_guids example_manifest"]
  have 3: "fst (cachefile_walk example_envs 0 example_manifest)"
    by blast
  from ok 1 2 3 4 5 show ?thesis
    by simp
qed

text \<open>
  C9 as stated fails: when \<^verbatim>\<open>nvlist_add_nvlist\<close> fails during the import of the first
  pool, the \<^verbatim>\<open>verify\<close> around it ends the process and the second qualifying entry is
  never attempted.
\<close>

theorem cachefile_walk_order_counterexample:
  "zpool_import_by_guid (example_envs_enomem 0) 0x1111 =
     (VerifyFailed, [], \<lparr>g_zfs_live = True, policy_live = True, pools_live = True\<rparr>) \<and>
   \<not> fst (cachefile_walk example_envs_enomem 0 example_manifest) \<and>
   import_attempts (snd (cachefile_walk example_envs_enomem 0 example_manifest)) = [0x1111] \<and>
   manifest_guids example_manifest = [0x1111, 0x2222]"
proof -
  have 1: "zpool_import_by_guid (example_envs_enomem 0) 0x1111 =
     (VerifyFailed, [], \<lparr>g_zfs_live = True, policy_live = True, pools_live = True\<rparr>)"
    by (simp add: zpool_import_by_guid_def example_envs_enomem_def example_env_def
        example_config_def zpool_keys zfs_constants)
  have 2: "manifest_guids example_manifest = [0x1111, 0x2222]"
    by (simp add: example_manifest_def manifest_guids_simps zpool_keys)
  from 1 have "cachefile_walk example_envs_enomem 0 example_manifest =
      (False, [Printf (MsgCachefileHasPool ''tank''), Printf (MsgCachefileHasPoolGuid ''tank'' 0x1111),
        Call_zpool_import_by_guid 0x1111])"
    by (simp add: example_manifest_def zpool_keys)
  with 1 2 show ?thesis
    by simp
qed

text \<open>
  C10: a manifest entry whose value is not a nested record, or whose nested record has no
  \<^verbatim>\<open>pool_guid\<close>, is skipped: the walk goes on with the next entry as if the entry were
  not there, with no import attempt and no error message. The only trace such an entry
  can leave is the line naming the pool, which the code logs for every nested record.
\<close>

theorem cachefile_walk_skips_entry:
  assumes "(\<forall>child. snd e \<noteq> NvNvlist child) \<or>
           (\<exists>child. snd e = NvNvlist child \<and>
              nvlist_lookup_uint64 child ZPOOL_CONFIG_POOL_GUID = None)"
  shows "fst (cachefile_walk envs k (e # rest)) = fst (cachefile_walk envs k rest) \<and>
         import_attempts (snd (cachefile_walk envs k (e # rest))) =
           import_attempts (snd (cachefile_walk envs k rest)) \<and>
         (snd (cachefile_walk envs k (e # rest)) = snd (cachefile_walk envs k rest) \<or>
          snd (cachefile_walk envs k (e # rest)) =
            Printf (MsgCachefileHasPool (fst e)) # snd (cachefile_walk envs k rest)) \<and>
         ((\<forall>child. snd e \<noteq> NvNvlist child) \<longrightarrow>
            cachefile_walk envs k (e # rest) = cachefile_walk envs k rest)"
proof -
  from assms have q: "qualifying_guid e = None"
    by (cases e rule: qualifying_guid.cases) auto
  have "(\<forall>child. snd e \<noteq> NvNvlist child) \<longrightarrow>
      cachefile_walk envs k (e # rest) = cachefile_walk envs k rest"
    by (cases e rule: qualifying_guid.cases) auto
  with cachefile_walk_skip [where envs = envs and k = k and rest = rest, OF q] show ?thesis
    by auto
qed

theorem cachefile_walk_skips_entry_witness:
  "cachefile_walk example_envs 0 ((''comment'', NvString ''not a pool'') # example_manifest) =
     cachefile_walk example_envs 0 example_manifest \<and>
   snd (cachefile_walk example_envs 0 ((''empty'', NvNvlist []) # example_manifest)) =
     Printf (MsgCachefileHasPool ''empty'') # snd (cachefile_walk example_envs 0 example_manifest) \<and>
   import_attempts
     (snd (cachefile_walk example_envs 0 ((''empty'', NvNvlist []) # example_manifest))) =
     import_attempts (snd (cachefile_walk example_envs 0 example_manifest))"
  using cachefile_walk_skips_entry [of "(''comment'', NvString ''not a pool'')" example_envs 0
      example_manifest]
    cachefile_walk_skips_entry [of "(''empty'', NvNvlist [])" example_envs 0 example_manifest]
  by simp

end
